theory Spec2Isabelle
  imports Complex_Main
begin

text \<open>
  A model of \<open>tensorflow_probability/python/distributions/doublesided_maxwell.py\<close>: the
  class \<open>DoublesidedMaxwell\<close>, its log-density, its sampler, its mean and standard
  deviation and its parameter validation hook, over tensors with broadcasting.
\<close>

section \<open>Element values\<close>

text \<open>
  A tensor element is a real number or one of the IEEE special values. Arithmetic on
  finite values is exact: rounding, overflow and the sign of zero are not represented.
  The special values follow IEEE 754: \<open>inf - inf\<close>, \<open>0 * inf\<close>, \<open>0 / 0\<close>, \<open>inf / inf\<close>
  and the logarithm or square root of a negative number are \<open>NaN\<close>; \<open>log 0\<close> is \<open>-inf\<close>.
\<close>

datatype fl = Fin real | PInf | NInf | NaN

fun fneg :: "fl \<Rightarrow> fl" where
  "fneg (Fin a) = Fin (- a)"
| "fneg PInf = NInf"
| "fneg NInf = PInf"
| "fneg NaN = NaN"

fun fadd :: "fl \<Rightarrow> fl \<Rightarrow> fl" where
  "fadd (Fin a) (Fin b) = Fin (a + b)"
| "fadd NaN _ = NaN"
| "fadd _ NaN = NaN"
| "fadd PInf NInf = NaN"
| "fadd NInf PInf = NaN"
| "fadd PInf _ = PInf"
| "fadd _ PInf = PInf"
| "fadd NInf _ = NInf"
| "fadd _ NInf = NInf"

definition fsub :: "fl \<Rightarrow> fl \<Rightarrow> fl" where
  "fsub a b = fadd a (fneg b)"

fun fmul :: "fl \<Rightarrow> fl \<Rightarrow> fl" where
  "fmul (Fin a) (Fin b) = Fin (a * b)"
| "fmul NaN _ = NaN"
| "fmul _ NaN = NaN"
| "fmul (Fin a) PInf = (if a = 0 then NaN else if 0 < a then PInf else NInf)"
| "fmul (Fin a) NInf = (if a = 0 then NaN else if 0 < a then NInf else PInf)"
| "fmul PInf (Fin b) = (if b = 0 then NaN else if 0 < b then PInf else NInf)"
| "fmul NInf (Fin b) = (if b = 0 then NaN else if 0 < b then NInf else PInf)"
| "fmul PInf PInf = PInf"
| "fmul PInf NInf = NInf"
| "fmul NInf PInf = NInf"
| "fmul NInf NInf = PInf"

fun fdiv :: "fl \<Rightarrow> fl \<Rightarrow> fl" where
  "fdiv (Fin a) (Fin b) =
     (if b = 0 then (if a = 0 then NaN else if 0 < a then PInf else NInf)
      else Fin (a / b))"
| "fdiv NaN _ = NaN"
| "fdiv _ NaN = NaN"
| "fdiv (Fin a) _ = Fin 0"
| "fdiv PInf (Fin b) = (if 0 \<le> b then PInf else NInf)"
| "fdiv NInf (Fin b) = (if 0 \<le> b then NInf else PInf)"
| "fdiv _ _ = NaN"

fun flog :: "fl \<Rightarrow> fl" where
  "flog (Fin a) = (if 0 < a then Fin (ln a) else if a = 0 then NInf else NaN)"
| "flog PInf = PInf"
| "flog _ = NaN"

fun fsqrt :: "fl \<Rightarrow> fl" where
  "fsqrt (Fin a) = (if 0 \<le> a then Fin (sqrt a) else NaN)"
| "fsqrt PInf = PInf"
| "fsqrt _ = NaN"

text \<open>\<open>x > 0\<close> as a comparison of elements: false on \<open>NaN\<close>.\<close>

fun fpos :: "fl \<Rightarrow> bool" where
  "fpos (Fin a) = (0 < a)"
| "fpos PInf = True"
| "fpos _ = False"

text \<open>
  The element type of the distribution is the common floating type of \<open>loc\<close> and
  \<open>scale\<close>, \<open>float32\<close> when neither fixes one (\<open>dtype_hint=tf.float32\<close>). A number that
  enters a tensor of that type is rounded to the nearest \<open>float32\<close>, a tie to the even
  significand; one \<open>float32\<close> addition or subtraction returns this rounding of the exact
  result. \<open>round_float32\<close> is that rounding in the normal range, with 24 significant
  bits; overflow and subnormal numbers are not represented. The operations above stay
  exact: the rounding is written out where a statement depends on it.
\<close>

definition round_half_even :: "real \<Rightarrow> int" where
  "round_half_even x =
     (let f = \<lfloor>x\<rfloor>; r = x - of_int f
      in if r < 1 / 2 then f else if 1 / 2 < r then f + 1
         else if even f then f else f + 1)"

definition round_float32 :: "real \<Rightarrow> real" where
  "round_float32 x =
     (if x = 0 then 0
      else let e = \<lfloor>log 2 \<bar>x\<bar>\<rfloor>; u = 2 powr (of_int e - 23)
           in of_int (round_half_even (x / u)) * u)"

fun to_float32 :: "fl \<Rightarrow> fl" where
  "to_float32 (Fin a) = Fin (round_float32 a)"
| "to_float32 v = v"

section \<open>Tensors\<close>

text \<open>
  A tensor is its shape and its elements in row-major order. \<open>indices sh\<close> lists the
  multi-indices of a shape in that order and \<open>ravel\<close> is the offset of a multi-index.
\<close>

record tensor =
  shape :: "nat list"
  elems :: "fl list"

definition wf :: "tensor \<Rightarrow> bool" where
  "wf t = (length (elems t) = prod_list (shape t))"

fun indices :: "nat list \<Rightarrow> nat list list" where
  "indices [] = [[]]"
| "indices (d # ds) = concat (map (\<lambda>i. map ((#) i) (indices ds)) [0..<d])"

fun ravel :: "nat list \<Rightarrow> nat list \<Rightarrow> nat" where
  "ravel (d # ds) (i # js) = i * prod_list ds + ravel ds js"
| "ravel _ _ = 0"

definition get :: "tensor \<Rightarrow> nat list \<Rightarrow> fl" where
  "get t idx = elems t ! ravel (shape t) idx"

definition build :: "nat list \<Rightarrow> (nat list \<Rightarrow> fl) \<Rightarrow> tensor" where
  "build sh f = \<lparr>shape = sh, elems = map f (indices sh)\<rparr>"

definition scalar :: "fl \<Rightarrow> tensor" where
  "scalar c = \<lparr>shape = [], elems = [c]\<rparr>"

subsection \<open>Broadcasting\<close>

text \<open>
  Shapes are aligned at their last dimension; a missing dimension counts as 1; two
  dimensions are compatible when they are equal or one of them is 1. \<open>bc_rev\<close> works on
  the reversed shapes. \<open>proj sh idx\<close> is the index into an operand of shape \<open>sh\<close> that a
  result index \<open>idx\<close> reads: the trailing dimensions, with 0 where the operand has size 1.
\<close>

fun bc_dim :: "nat \<Rightarrow> nat \<Rightarrow> nat option" where
  "bc_dim x y =
     (if x = 1 then Some y else if y = 1 then Some x
      else if x = y then Some x else None)"

fun bc_rev :: "nat list \<Rightarrow> nat list \<Rightarrow> nat list option" where
  "bc_rev [] ys = Some ys"
| "bc_rev xs [] = Some xs"
| "bc_rev (x # xs) (y # ys) =
     (case bc_dim x y of
        None \<Rightarrow> None
      | Some d \<Rightarrow> map_option ((#) d) (bc_rev xs ys))"

definition broadcast_shape :: "nat list \<Rightarrow> nat list \<Rightarrow> nat list option" where
  "broadcast_shape a b = map_option rev (bc_rev (rev a) (rev b))"

fun proj_rev :: "nat list \<Rightarrow> nat list \<Rightarrow> nat list" where
  "proj_rev (d # ds) (i # js) = (if d = 1 then 0 else i) # proj_rev ds js"
| "proj_rev _ _ = []"

definition proj :: "nat list \<Rightarrow> nat list \<Rightarrow> nat list" where
  "proj sh idx = rev (proj_rev (rev sh) (rev idx))"

datatype error = ValueError string | InvalidArgumentError string

text \<open>An elementwise binary operation with broadcasting; incompatible shapes raise.\<close>

definition binop :: "(fl \<Rightarrow> fl \<Rightarrow> fl) \<Rightarrow> tensor \<Rightarrow> tensor \<Rightarrow> error + tensor" where
  "binop f a b =
     (case broadcast_shape (shape a) (shape b) of
        None \<Rightarrow> Inl (InvalidArgumentError ''Incompatible shapes'')
      | Some s \<Rightarrow>
          Inr (build s (\<lambda>idx. f (get a (proj (shape a) idx)) (get b (proj (shape b) idx)))))"

definition unop :: "(fl \<Rightarrow> fl) \<Rightarrow> tensor \<Rightarrow> tensor" where
  "unop f a = \<lparr>shape = shape a, elems = map f (elems a)\<rparr>"

definition ebind :: "error + 'a \<Rightarrow> ('a \<Rightarrow> error + 'b) \<Rightarrow> error + 'b" where
  "ebind m k = (case m of Inl e \<Rightarrow> Inl e | Inr v \<Rightarrow> k v)"

text \<open>TensorFlow operations used by the distribution.\<close>

definition fsquare :: "fl \<Rightarrow> fl" where
  "fsquare a = fmul a a"

definition ones_like :: "tensor \<Rightarrow> tensor" where
  "ones_like t = build (shape t) (\<lambda>_. Fin 1)"

text \<open>The conversion of a tensor to the element type \<open>float32\<close>.\<close>

definition cast_float32 :: "tensor \<Rightarrow> tensor" where
  "cast_float32 t = unop to_float32 t"

definition broadcast_dynamic_shape :: "nat list \<Rightarrow> nat list \<Rightarrow> error + nat list" where
  "broadcast_dynamic_shape a b =
     (case broadcast_shape a b of
        None \<Rightarrow> Inl (InvalidArgumentError ''Incompatible shapes'')
      | Some s \<Rightarrow> Inr s)"

text \<open>
  \<open>tf.norm(t, axis=-1)\<close>: the Euclidean norm along the last axis, the square root of the
  sum of the squares.
\<close>

definition tf_norm :: "tensor \<Rightarrow> error + tensor" where
  "tf_norm t =
     (if shape t = [] then Inl (ValueError ''axis -1 is out of bounds'')
      else Inr (build (butlast (shape t))
                  (\<lambda>idx. fsqrt (foldl fadd (Fin 0)
                     (map (\<lambda>k. fsquare (get t (idx @ [k]))) [0..<last (shape t)])))))"

text \<open>
  Modelled from the spec: \<open>prefer_static.pad\<close> (not part of the source file) on a shape
  vector, with \<open>paddings=[[before, after]]\<close> and the constant \<open>c\<close>. It gives the spec's
  shapes \<open>[n] + batch_shape\<close> and, with a last axis of size 3, the shape of the normal draws.
\<close>

definition pad :: "nat list \<Rightarrow> nat \<Rightarrow> nat \<Rightarrow> nat \<Rightarrow> nat list" where
  "pad x before after c = replicate before c @ x @ replicate after c"

subsection \<open>Static shapes\<close>

text \<open>
  The static shape of a tensor (\<open>x.shape\<close>, a \<open>TensorShape\<close>): \<open>None\<close> when the rank is
  unknown, else the dimensions, each known or \<open>None\<close>. \<open>tf.broadcast_static_shape\<close> returns
  the unknown shape when a rank is unknown; an unknown dimension is assumed to fit; it
  raises \<open>ValueError\<close> when two known dimensions differ and neither is 1.
\<close>

type_synonym tensor_shape = "nat option list option"

fun bc_static_dim :: "nat option \<Rightarrow> nat option \<Rightarrow> nat option option" where
  "bc_static_dim (Some x) (Some y) =
     (if x = 1 then Some (Some y) else if y = 1 then Some (Some x)
      else if x = y then Some (Some x) else None)"
| "bc_static_dim (Some x) None = Some (if 1 < x then Some x else None)"
| "bc_static_dim None (Some y) = Some (if 1 < y then Some y else None)"
| "bc_static_dim None None = Some None"

fun bc_static_rev :: "nat option list \<Rightarrow> nat option list \<Rightarrow> nat option list option" where
  "bc_static_rev [] ys = Some ys"
| "bc_static_rev xs [] = Some xs"
| "bc_static_rev (x # xs) (y # ys) =
     (case bc_static_dim x y of
        None \<Rightarrow> None
      | Some d \<Rightarrow> map_option ((#) d) (bc_static_rev xs ys))"

fun str_nat :: "nat \<Rightarrow> string" where
  "str_nat n =
     (if n < 10 then [''0123456789'' ! n]
      else str_nat (n div 10) @ [''0123456789'' ! (n mod 10)])"

definition str_dim :: "nat option \<Rightarrow> string" where
  "str_dim d = (case d of None \<Rightarrow> ''None'' | Some n \<Rightarrow> str_nat n)"

fun join :: "string \<Rightarrow> string list \<Rightarrow> string" where
  "join sep [] = []"
| "join sep [x] = x"
| "join sep (x # xs) = x @ sep @ join sep xs"

definition str_shape :: "tensor_shape \<Rightarrow> string" where
  "str_shape s =
     (case s of
        None \<Rightarrow> ''<unknown>''
      | Some [d] \<Rightarrow> ''('' @ str_dim d @ '',)''
      | Some ds \<Rightarrow> ''('' @ join '', '' (map str_dim ds) @ '')'')"

definition broadcast_static_shape :: "tensor_shape \<Rightarrow> tensor_shape \<Rightarrow> error + tensor_shape" where
  "broadcast_static_shape sx sy =
     (case sx of
        None \<Rightarrow> Inr None
      | Some dx \<Rightarrow>
          (case sy of
             None \<Rightarrow> Inr None
           | Some dy \<Rightarrow>
               (case bc_static_rev (rev dx) (rev dy) of
                  None \<Rightarrow> Inl (ValueError (''Incompatible shapes for broadcasting: ''
                                   @ str_shape sx @ '' and '' @ str_shape sy))
                | Some r \<Rightarrow> Inr (Some (rev r)))))"

subsection \<open>Random draws\<close>

text \<open>
  The random source is a parameter of the model: the hash that mixes seed, counter and
  salt into a sub-seed, and the generators behind \<open>tf.random.normal\<close> and
  \<open>random_rademacher\<close>. A draw is a function of the sub-seed, the requested shape and the
  position in the tensor.
\<close>

record rng =
  subseed_hash :: "int \<Rightarrow> nat \<Rightarrow> string \<Rightarrow> int"
  normal_draw :: "int option \<Rightarrow> nat list \<Rightarrow> nat list \<Rightarrow> real"
  sign_draw :: "int option \<Rightarrow> nat list \<Rightarrow> nat list \<Rightarrow> bool"

text \<open>
  Modelled from the spec: the seed stream \<open>SeedStream\<close> (not part of the source file). Given a
  base seed and a salt it yields successive deterministic sub-seeds. The state is a
  counter threaded through the calls; a call advances it and returns the hash of seed,
  counter and salt. Without a seed there is no sub-seed.
\<close>

record seed_stream =
  ss_seed :: "int option"
  ss_salt :: string
  ss_counter :: nat

definition SeedStream :: "int option \<Rightarrow> string \<Rightarrow> seed_stream" where
  "SeedStream seed salt = \<lparr>ss_seed = seed, ss_salt = salt, ss_counter = 0\<rparr>"

definition seed_call :: "rng \<Rightarrow> seed_stream \<Rightarrow> int option \<times> seed_stream" where
  "seed_call R st =
     (let c = ss_counter st + 1
      in (map_option (\<lambda>s. subseed_hash R s c (ss_salt st)) (ss_seed st),
          st\<lparr>ss_counter := c\<rparr>))"

text \<open>\<open>tf.random.normal(shape, seed)\<close>: a tensor of the requested shape of finite draws.\<close>

definition random_normal :: "rng \<Rightarrow> nat list \<Rightarrow> int option \<Rightarrow> tensor" where
  "random_normal R sh seed = build sh (\<lambda>idx. Fin (normal_draw R seed sh idx))"

text \<open>
  Modelled from the spec: \<open>random_rademacher\<close> (not part of the source file), a draw of +1 or -1
  at every position of the requested shape.
\<close>

definition random_rademacher :: "rng \<Rightarrow> nat list \<Rightarrow> int option \<Rightarrow> tensor" where
  "random_rademacher R sh seed =
     build sh (\<lambda>idx. if sign_draw R seed sh idx then Fin 1 else Fin (- 1))"

section \<open>The distribution\<close>

text \<open>
  A parameter is a fixed tensor or a reference to a value that can change (a variable,
  \<open>tensor_util.is_ref\<close>); \<open>current\<close> is the value read at the time of the call
  (\<open>tf.convert_to_tensor\<close>).
\<close>

record param =
  is_ref :: bool
  static_shape :: tensor_shape
  current :: tensor

record dist =
  loc :: param
  scale :: param
  validate_args :: bool
  allow_nan_stats :: bool
  name :: string

text \<open>
  Modelled from the spec: \<open>assert_util.assert_positive\<close> (not part of the source file) checks
  that a tensor is strictly positive everywhere. An assertion is a value; \<open>run_assertion\<close>
  is its check.
\<close>

datatype assertion = AssertPositive tensor string

definition assert_positive :: "tensor \<Rightarrow> string \<Rightarrow> assertion" where
  "assert_positive t message = AssertPositive t message"

fun run_assertion :: "assertion \<Rightarrow> error + unit" where
  "run_assertion (AssertPositive t message) =
     (if list_all fpos (elems t) then Inr () else Inl (InvalidArgumentError message))"

text \<open>
  The methods of \<open>DoublesidedMaxwell\<close>, each under its name in the source without the
  leading underscore; \<open>z_of\<close> is \<open>_z\<close>. An optional argument is an \<open>option\<close>.
\<close>

definition batch_shape_tensor :: "dist \<Rightarrow> tensor option \<Rightarrow> tensor option \<Rightarrow> error + nat list" where
  "batch_shape_tensor D loc_arg scale_arg =
     broadcast_dynamic_shape
       (shape (case loc_arg of None \<Rightarrow> current (loc D) | Some l \<Rightarrow> l))
       (shape (case scale_arg of None \<Rightarrow> current (scale D) | Some s \<Rightarrow> s))"

definition batch_shape :: "dist \<Rightarrow> error + tensor_shape" where
  "batch_shape D = broadcast_static_shape (static_shape (loc D)) (static_shape (scale D))"

definition z_of :: "dist \<Rightarrow> tensor \<Rightarrow> tensor option \<Rightarrow> error + tensor" where
  "z_of D x scale_arg =
     ebind (binop fsub x (current (loc D)))
       (\<lambda>d. binop fdiv d (case scale_arg of None \<Rightarrow> current (scale D) | Some s \<Rightarrow> s))"

definition log_prob :: "dist \<Rightarrow> tensor \<Rightarrow> error + tensor" where
  "log_prob D x =
     (let scale_t = current (scale D) in
      ebind (z_of D x (Some scale_t)) (\<lambda>z.
        let square_z = unop fsquare z in
        ebind (binop fmul (scalar (Fin (- 0.5))) square_z) (\<lambda>half_sq.
        ebind (binop fadd half_sq (unop flog square_z)) (\<lambda>log_unnormalized_prob.
        ebind (binop fadd (scalar (Fin (0.5 * ln (2 * pi)))) (unop flog scale_t))
          (\<lambda>log_normalization.
        binop fsub log_unnormalized_prob log_normalization)))))"

definition sample_n :: "rng \<Rightarrow> dist \<Rightarrow> nat \<Rightarrow> int option \<Rightarrow> error + tensor" where
  "sample_n R D n seed =
     (let st0 = SeedStream seed ''DoublesidedMaxwell'';
          loc_t = current (loc D);
          scale_t = current (scale D)
      in ebind (batch_shape_tensor D (Some loc_t) (Some scale_t)) (\<lambda>bs.
           let sh = pad bs 1 0 n;
               (seed1, st1) = seed_call R st0;
               norm_rvs = random_normal R (pad sh 0 1 3) seed1
           in ebind (tf_norm norm_rvs) (\<lambda>maxwell_rvs.
                let (seed2, st2) = seed_call R st1;
                    random_sign = random_rademacher R sh seed2
                in ebind (binop fmul random_sign maxwell_rvs) (\<lambda>signed.
                   ebind (binop fmul signed scale_t) (\<lambda>scaled.
                   binop fadd scaled loc_t)))))"

text \<open>
  \<open>sample_n\<close> with the Rademacher draw requested before the normal draws, and nothing else
  changed: the program the ordering requirement compares \<open>sample_n\<close> with.
\<close>

definition sample_n_swapped :: "rng \<Rightarrow> dist \<Rightarrow> nat \<Rightarrow> int option \<Rightarrow> error + tensor" where
  "sample_n_swapped R D n seed =
     (let st0 = SeedStream seed ''DoublesidedMaxwell'';
          loc_t = current (loc D);
          scale_t = current (scale D)
      in ebind (batch_shape_tensor D (Some loc_t) (Some scale_t)) (\<lambda>bs.
           let sh = pad bs 1 0 n;
               (seed1, st1) = seed_call R st0;
               random_sign = random_rademacher R sh seed1;
               (seed2, st2) = seed_call R st1;
               norm_rvs = random_normal R (pad sh 0 1 3) seed2
           in ebind (tf_norm norm_rvs) (\<lambda>maxwell_rvs.
                ebind (binop fmul random_sign maxwell_rvs) (\<lambda>signed.
                ebind (binop fmul signed scale_t) (\<lambda>scaled.
                binop fadd scaled loc_t)))))"

definition mean :: "dist \<Rightarrow> error + tensor" where
  "mean D = binop fmul (current (loc D)) (ones_like (current (scale D)))"

definition stddev :: "dist \<Rightarrow> error + tensor" where
  "stddev D =
     ebind (binop fmul (scalar (Fin (sqrt 3))) (current (scale D)))
       (\<lambda>s. binop fmul s (ones_like (current (loc D))))"

definition parameter_control_dependencies :: "dist \<Rightarrow> bool \<Rightarrow> error + assertion list" where
  "parameter_control_dependencies D is_init =
     (let assertions = [] in
      ebind (if is_init
             then (case batch_shape D of
                     Inl _ \<Rightarrow>
                       Inl (ValueError
                         (''Arguments `loc` and `scale` must have compatible shapes; ''
                          @ ''loc.shape='' @ str_shape (static_shape (loc D))
                          @ '', scale.shape='' @ str_shape (static_shape (scale D)) @ ''.''))
                   | Inr _ \<Rightarrow> Inr ())
             else Inr ())
        (\<lambda>_. if \<not> validate_args D then Inr []
             else Inr (if is_init \<noteq> is_ref (scale D)
                       then assertions @
                            [assert_positive (current (scale D))
                               ''Argument `scale` must be positive.'']
                       else assertions)))"

section \<open>Reference formulas\<close>

text \<open>
  The log-density of one element as the specification writes it:
  \<open>(-0.5 * z^2 + log (z^2)) - (0.5 * log (2 * pi) + log scale)\<close> with
  \<open>z = (x - loc) / scale\<close>.
\<close>

definition log_pdf_formula :: "fl \<Rightarrow> fl \<Rightarrow> fl \<Rightarrow> fl" where
  "log_pdf_formula xv lv sv =
     (let z = fdiv (fsub xv lv) sv
      in fsub (fadd (fmul (Fin (- 0.5)) (fsquare z)) (flog (fsquare z)))
              (fadd (Fin (0.5 * ln (2 * pi))) (flog sv)))"

text \<open>
  One element of a sample as the specification writes it:
  \<open>loc + scale * s * sqrt (g1^2 + g2^2 + g3^2)\<close>.
\<close>

definition sample_formula :: "fl \<Rightarrow> fl \<Rightarrow> fl \<Rightarrow> fl \<Rightarrow> fl \<Rightarrow> fl \<Rightarrow> fl" where
  "sample_formula lv sv s g1 g2 g3 =
     fadd lv (fmul (fmul sv s)
       (fsqrt (fadd (fadd (fsquare g1) (fsquare g2)) (fsquare g3))))"

text \<open>The k-th sub-seed of the stream that \<open>sample_n\<close> opens on a seed.\<close>

definition subseed :: "rng \<Rightarrow> int option \<Rightarrow> nat \<Rightarrow> int option" where
  "subseed R seed k = map_option (\<lambda>s. subseed_hash R s k ''DoublesidedMaxwell'') seed"

text \<open>
  The value of a sample at a position when the normal draws are taken with the sub-seed
  number \<open>kn\<close> and the sign draw with the sub-seed number \<open>ks\<close> of that stream.
\<close>

definition sample_value ::
  "rng \<Rightarrow> dist \<Rightarrow> int option \<Rightarrow> nat \<Rightarrow> nat \<Rightarrow> nat list \<Rightarrow> nat list \<Rightarrow> fl" where
  "sample_value R D seed kn ks sh idx =
     sample_formula
       (get (current (loc D)) (proj (shape (current (loc D))) idx))
       (get (current (scale D)) (proj (shape (current (scale D))) idx))
       (if sign_draw R (subseed R seed ks) sh idx then Fin 1 else Fin (- 1))
       (Fin (normal_draw R (subseed R seed kn) (sh @ [3]) (idx @ [0])))
       (Fin (normal_draw R (subseed R seed kn) (sh @ [3]) (idx @ [1])))
       (Fin (normal_draw R (subseed R seed kn) (sh @ [3]) (idx @ [2])))"

text \<open>Elements that are real numbers, and calls that return a tensor of such elements.\<close>

fun is_fin :: "fl \<Rightarrow> bool" where
  "is_fin (Fin a) = True"
| "is_fin _ = False"

fun returns_finite :: "error + tensor \<Rightarrow> bool" where
  "returns_finite (Inr r) = list_all is_fin (elems r)"
| "returns_finite (Inl e) = False"

section \<open>Example instances\<close>

text \<open>
  The distribution of the class documentation, \<open>DoublesidedMaxwell(loc=[1, 2.], scale=[11, 22.])\<close>,
  and inputs for it.
\<close>

definition ex_loc :: tensor where
  "ex_loc = \<lparr>shape = [2], elems = [Fin 1, Fin 2]\<rparr>"

definition ex_scale :: tensor where
  "ex_scale = \<lparr>shape = [2], elems = [Fin 11, Fin 22]\<rparr>"

definition ex_dist :: dist where
  "ex_dist =
     \<lparr>loc = \<lparr>is_ref = False, static_shape = Some [Some 2], current = ex_loc\<rparr>,
      scale = \<lparr>is_ref = False, static_shape = Some [Some 2], current = ex_scale\<rparr>,
      validate_args = True, allow_nan_stats = True, name = ''doublesided_maxwell''\<rparr>"

definition ex_x :: tensor where
  "ex_x = \<lparr>shape = [2], elems = [Fin 0, Fin 1.5]\<rparr>"

definition ex_scale3 :: tensor where
  "ex_scale3 = \<lparr>shape = [3], elems = [Fin 1, Fin 2, Fin 3]\<rparr>"

definition ex_bad :: dist where
  "ex_bad =
     \<lparr>loc = \<lparr>is_ref = False, static_shape = Some [Some 2], current = ex_loc\<rparr>,
      scale = \<lparr>is_ref = False, static_shape = Some [Some 3], current = ex_scale3\<rparr>,
      validate_args = False, allow_nan_stats = True, name = ''doublesided_maxwell''\<rparr>"


definition ex_ref :: dist where
  "ex_ref =
     \<lparr>loc = \<lparr>is_ref = False, static_shape = Some [Some 2], current = ex_loc\<rparr>,
      scale = \<lparr>is_ref = True, static_shape = Some [Some 2], current = ex_scale\<rparr>,
      validate_args = True, allow_nan_stats = True, name = ''doublesided_maxwell''\<rparr>"

definition ex_neg_scale :: tensor where
  "ex_neg_scale = \<lparr>shape = [2], elems = [Fin (- 1), Fin 22]\<rparr>"

definition ex_neg :: dist where
  "ex_neg =
     \<lparr>loc = \<lparr>is_ref = False, static_shape = Some [Some 2], current = ex_loc\<rparr>,
      scale = \<lparr>is_ref = False, static_shape = Some [Some 2], current = ex_neg_scale\<rparr>,
      validate_args = False, allow_nan_stats = True, name = ''doublesided_maxwell''\<rparr>"

definition ex_row :: tensor where
  "ex_row = \<lparr>shape = [1, 2], elems = [Fin 11, Fin 22]\<rparr>"

definition ex_col :: tensor where
  "ex_col = \<lparr>shape = [2, 1], elems = [Fin 1, Fin 2]\<rparr>"

definition ex_outer :: dist where
  "ex_outer =
     \<lparr>loc = \<lparr>is_ref = False, static_shape = Some [Some 2, Some 1], current = ex_col\<rparr>,
      scale = \<lparr>is_ref = False, static_shape = Some [Some 1, Some 2], current = ex_row\<rparr>,
      validate_args = False, allow_nan_stats = True, name = ''doublesided_maxwell''\<rparr>"

definition ex_junk :: tensor where
  "ex_junk = \<lparr>shape = [2], elems = [NaN, Fin (- 5)]\<rparr>"

text \<open>
  A random source: the sub-seed is the seed plus the counter, every normal draw of a
  sub-seed \<open>s\<close> is \<open>s - 1\<close> and its sign draw is +1 exactly when \<open>s\<close> is even.
\<close>

definition ex_rng :: rng where
  "ex_rng =
     \<lparr>subseed_hash = (\<lambda>s k salt. s + int k),
      normal_draw = (\<lambda>seed sh idx. case seed of None \<Rightarrow> 0 | Some s \<Rightarrow> real_of_int s - 1),
      sign_draw = (\<lambda>seed sh idx. case seed of None \<Rightarrow> True | Some s \<Rightarrow> even s)\<rparr>"

text \<open>
  \<open>DoublesidedMaxwell(loc=1., scale=1.)\<close>, of element type \<open>float32\<close>, and the
  \<open>float32\<close> value \<open>2^-24\<close>, half the distance from 1 to the next \<open>float32\<close>.
\<close>

definition ex_std :: dist where
  "ex_std =
     \<lparr>loc = \<lparr>is_ref = False, static_shape = Some [], current = scalar (Fin 1)\<rparr>,
      scale = \<lparr>is_ref = False, static_shape = Some [], current = scalar (Fin 1)\<rparr>,
      validate_args = False, allow_nan_stats = True, name = ''doublesided_maxwell''\<rparr>"

definition ex_eps :: tensor where
  "ex_eps = scalar (Fin (1 / 2 ^ 24))"

section \<open>Indexing and broadcasting lemmas\<close>

lemma length_indices: "length (indices sh) = prod_list sh"
proof (induction sh)
  case Nil
  show ?case by simp
next
  case (Cons d ds)
  have "length (concat (map (\<lambda>i. map ((#) i) (indices ds)) [0..<d])) = d * prod_list ds"
    by (simp add: length_concat comp_def Cons.IH sum_list_triv)
  then show ?case by simp
qed

lemma in_indices_iff: "idx \<in> set (indices sh) \<longleftrightarrow> list_all2 (<) idx sh"
proof (induction sh arbitrary: idx)
  case Nil
  show ?case by simp
next
  case (Cons d ds)
  show ?case
  proof (cases idx)
    case Nil
    then show ?thesis by auto
  next
    case (Cons i js)
    have "i # js \<in> set (indices (d # ds)) \<longleftrightarrow> i < d \<and> js \<in> set (indices ds)"
      by auto
    then show ?thesis using Cons Cons.IH by simp
  qed
qed

lemma ravel_less: "list_all2 (<) idx sh \<Longrightarrow> ravel sh idx < prod_list sh"
proof (induction sh arbitrary: idx)
  case Nil
  then show ?case by simp
next
  case (Cons d ds)
  then obtain i js where idx: "idx = i # js" and i: "i < d" and js: "list_all2 (<) js ds"
    by (auto simp: list_all2_Cons2)
  have r: "ravel ds js < prod_list ds" using Cons.IH js by simp
  have "i * prod_list ds + ravel ds js < (Suc i) * prod_list ds" using r by simp
  also have "\<dots> \<le> d * prod_list ds" using i by (simp add: Suc_leI mult_le_mono1 del: mult_Suc)
  finally show ?case by (simp add: idx)
qed

lemma sum_list_const_upt:
  "(\<And>i. i < d \<Longrightarrow> f i = n) \<Longrightarrow> sum_list (map f [0..<d]) = d * (n::nat)"
  by (induction d) simp_all

lemma nth_concat_blocks:
  assumes "\<And>i. i < d \<Longrightarrow> length (g i) = n" and "i < d" and "r < n"
  shows "concat (map g [0..<d]) ! (i * n + r) = g i ! r"
  using assms
proof (induction d arbitrary: i)
  case 0
  then show ?case by simp
next
  case (Suc d)
  have len: "length (concat (map g [0..<d])) = d * n"
    using Suc.prems(1) by (simp add: length_concat comp_def sum_list_const_upt)
  show ?case
  proof (cases "i < d")
    case True
    have "i * n + r < d * n"
    proof -
      have "i * n + r < Suc i * n" using Suc.prems(3) by simp
      also have "\<dots> \<le> d * n" using True by (simp add: Suc_leI mult_le_mono1 del: mult_Suc)
      finally show ?thesis .
    qed
    then show ?thesis using Suc.IH [of i] Suc.prems True by (simp add: nth_append len)
  next
    case False
    then have "i = d" using Suc.prems(2) by simp
    then show ?thesis using Suc.prems by (simp add: nth_append len)
  qed
qed

lemma nth_indices_ravel: "list_all2 (<) idx sh \<Longrightarrow> indices sh ! ravel sh idx = idx"
proof (induction sh arbitrary: idx)
  case Nil
  then show ?case by simp
next
  case (Cons d ds)
  then obtain i js where idx: "idx = i # js" and i: "i < d" and js: "list_all2 (<) js ds"
    by (auto simp: list_all2_Cons2)
  have r: "ravel ds js < prod_list ds" using js by (rule ravel_less)
  have "concat (map (\<lambda>i. map ((#) i) (indices ds)) [0..<d]) ! (i * prod_list ds + ravel ds js)
        = map ((#) i) (indices ds) ! ravel ds js"
    using i r by (intro nth_concat_blocks) (simp_all add: length_indices)
  then show ?case using Cons.IH [OF js] r by (simp add: idx length_indices)
qed

lemma shape_build: "shape (build sh f) = sh"
  by (simp add: build_def)

lemma wf_build: "wf (build sh f)"
  by (simp add: build_def wf_def length_indices)

lemma get_build: "idx \<in> set (indices sh) \<Longrightarrow> get (build sh f) idx = f idx"
  by (simp add: get_def build_def in_indices_iff ravel_less nth_indices_ravel length_indices)

lemma build_cong:
  "(\<And>idx. idx \<in> set (indices sh) \<Longrightarrow> f idx = g idx) \<Longrightarrow> build sh f = build sh g"
  by (simp add: build_def)

lemma unop_build: "unop h (build sh f) = build sh (\<lambda>idx. h (f idx))"
  by (simp add: unop_def build_def)

lemma valid_proj_rev_self: "list_all2 (<) i a \<Longrightarrow> list_all2 (<) (proj_rev a i) a"
  by (induction a i rule: proj_rev.induct) auto

lemma valid_proj_rev:
  "bc_rev a b = Some s \<Longrightarrow> list_all2 (<) i s \<Longrightarrow>
     list_all2 (<) (proj_rev a i) a \<and> list_all2 (<) (proj_rev b i) b"
proof (induction a b arbitrary: s i rule: bc_rev.induct)
  case (1 ys)
  then show ?case by (simp add: valid_proj_rev_self)
next
  case (2 x xs)
  then show ?case by (simp add: valid_proj_rev_self)
next
  case (3 x xs y ys)
  then show ?case
    by (auto simp: list_all2_Cons2 split: option.splits if_splits)
qed

lemma bc_rev_Nil2: "bc_rev a [] = Some a"
  by (cases a) simp_all

lemma bc_rev_self: "bc_rev a a = Some a"
  by (induction a) auto

lemma bc_rev_commute: "bc_rev a b = bc_rev b a"
proof (induction a b rule: bc_rev.induct)
  case (1 ys)
  then show ?case by (cases ys) simp_all
next
  case (2 x xs)
  then show ?case by simp
next
  case (3 x xs y ys)
  then show ?case by (auto split: option.splits)
qed

lemma bc_rev_absorb: "bc_rev a b = Some s \<Longrightarrow> bc_rev s b = Some s"
proof (induction a b arbitrary: s rule: bc_rev.induct)
  case (1 ys)
  then show ?case by (simp add: bc_rev_self)
next
  case (2 x xs)
  then show ?case by (auto simp: bc_rev_Nil2)
next
  case (3 x xs y ys)
  then show ?case by (auto split: option.splits if_splits)
qed

lemma proj_rev_idem: "proj_rev a (proj_rev a i) = proj_rev a i"
  by (induction a i rule: proj_rev.induct) auto

lemma proj_rev_proj_rev:
  "bc_rev a b = Some s \<Longrightarrow> proj_rev a (proj_rev s i) = proj_rev a i \<and> proj_rev b (proj_rev s i) = proj_rev b i"
proof (induction a b arbitrary: s i rule: bc_rev.induct)
  case (1 ys)
  then show ?case by (simp add: proj_rev_idem)
next
  case (2 x xs)
  then show ?case by (auto simp: proj_rev_idem)
next
  case (3 x xs y ys)
  then show ?case
    by (cases i) (auto split: option.splits if_splits)
qed

lemma bc_rev_assoc:
  "Option.bind (bc_rev a b) (\<lambda>s. bc_rev s c) = Option.bind (bc_rev b c) (bc_rev a)"
proof (induction a arbitrary: b c)
  case Nil
  then show ?case by (cases "bc_rev b c") simp_all
next
  case (Cons x xs)
  show ?case
  proof (cases b)
    case Nil
    then show ?thesis by (cases "bc_rev (x # xs) c") simp_all
  next
    case b: (Cons y ys)
    show ?thesis
    proof (cases c)
      case Nil
      then show ?thesis by (cases "bc_rev (x # xs) b") (simp_all add: b bc_rev_Nil2)
    next
      case c: (Cons z zs)
      show ?thesis using Cons.IH [of ys zs]
        by (auto simp: b c split: option.splits if_splits bind_splits)
    qed
  qed
qed

lemma bc_rev_length: "bc_rev a b = Some s \<Longrightarrow> length s = max (length a) (length b)"
proof (induction a b arbitrary: s rule: bc_rev.induct)
  case (3 x xs y ys)
  then show ?case by (auto split: option.splits if_splits)
qed auto

lemma bc_rev_snoc:
  "length b \<le> length a \<Longrightarrow> bc_rev (a @ [n]) b = map_option (\<lambda>s. s @ [n]) (bc_rev a b)"
proof (induction a b rule: bc_rev.induct)
  case (1 ys)
  then show ?case by simp
next
  case (2 x xs)
  then show ?case by simp
next
  case (3 x xs y ys)
  then show ?case by (auto split: option.splits simp: option.map_comp comp_def)
qed

lemma proj_rev_snoc: "length a \<le> length i \<Longrightarrow> proj_rev a (i @ [n]) = proj_rev a i"
  by (induction a i rule: proj_rev.induct) auto

lemma proj_rev_valid_id: "list_all2 (<) i a \<Longrightarrow> proj_rev a i = i"
  by (induction a i rule: proj_rev.induct) auto

lemma broadcast_shape_commute: "broadcast_shape a b = broadcast_shape b a"
  by (simp add: broadcast_shape_def bc_rev_commute)

lemma broadcast_shape_Nil [simp]: "broadcast_shape [] b = Some b" "broadcast_shape a [] = Some a"
  by (simp_all add: broadcast_shape_def bc_rev_Nil2)

lemma broadcast_shape_self [simp]: "broadcast_shape a a = Some a"
  by (simp add: broadcast_shape_def bc_rev_self)

lemma broadcast_shape_rev: "broadcast_shape a b = Some s \<longleftrightarrow> bc_rev (rev a) (rev b) = Some (rev s)"
  by (auto simp: broadcast_shape_def)

lemma broadcast_shape_absorb:
  assumes "broadcast_shape a b = Some s"
  shows "broadcast_shape s b = Some s" and "broadcast_shape s a = Some s"
proof -
  have 1: "bc_rev (rev a) (rev b) = Some (rev s)" using assms by (simp add: broadcast_shape_rev)
  then have 2: "bc_rev (rev b) (rev a) = Some (rev s)" by (simp add: bc_rev_commute)
  show "broadcast_shape s b = Some s" using bc_rev_absorb [OF 1] by (simp add: broadcast_shape_rev)
  show "broadcast_shape s a = Some s" using bc_rev_absorb [OF 2] by (simp add: broadcast_shape_rev)
qed

lemma broadcast_shape_length:
  "broadcast_shape a b = Some s \<Longrightarrow> length s = max (length a) (length b)"
  using bc_rev_length [of "rev a" "rev b" "rev s"] by (simp add: broadcast_shape_rev)

lemma broadcast_shape_Cons:
  "length b \<le> length a \<Longrightarrow> broadcast_shape (n # a) b = map_option ((#) n) (broadcast_shape a b)"
  by (simp add: broadcast_shape_def bc_rev_snoc option.map_comp comp_def)

lemma broadcast_shape_assoc:
  "Option.bind (broadcast_shape a b) (\<lambda>s. broadcast_shape s c)
   = Option.bind (broadcast_shape b c) (broadcast_shape a)"
  using bc_rev_assoc [of "rev a" "rev b" "rev c"]
  by (cases "bc_rev (rev a) (rev b)"; cases "bc_rev (rev b) (rev c)")
     (auto simp: broadcast_shape_def)

lemma valid_proj:
  assumes "broadcast_shape a b = Some s" and "idx \<in> set (indices s)"
  shows "proj a idx \<in> set (indices a)" and "proj b idx \<in> set (indices b)"
proof -
  have 1: "bc_rev (rev a) (rev b) = Some (rev s)" using assms(1) by (simp add: broadcast_shape_rev)
  have 2: "list_all2 (<) (rev idx) (rev s)" using assms(2) by (simp add: in_indices_iff)
  from valid_proj_rev [OF 1 2]
  have "list_all2 (<) (rev (proj a idx)) (rev a)" "list_all2 (<) (rev (proj b idx)) (rev b)"
    by (simp_all add: proj_def)
  then show "proj a idx \<in> set (indices a)" and "proj b idx \<in> set (indices b)"
    by (simp_all add: in_indices_iff)
qed

lemma proj_proj:
  assumes "broadcast_shape a b = Some s"
  shows "proj a (proj s idx) = proj a idx" and "proj b (proj s idx) = proj b idx"
proof -
  have 1: "bc_rev (rev a) (rev b) = Some (rev s)" using assms(1) by (simp add: broadcast_shape_rev)
  show "proj a (proj s idx) = proj a idx" and "proj b (proj s idx) = proj b idx"
    using proj_rev_proj_rev [OF 1, of "rev idx"] by (simp_all add: proj_def)
qed

lemma proj_valid_id: "idx \<in> set (indices s) \<Longrightarrow> proj s idx = idx"
  using proj_rev_valid_id [of "rev idx" "rev s"] by (simp add: proj_def in_indices_iff)

lemma proj_Nil [simp]: "proj [] idx = []"
  by (simp add: proj_def)

lemma get_unop: "wf a \<Longrightarrow> idx \<in> set (indices (shape a)) \<Longrightarrow> get (unop f a) idx = f (get a idx)"
  by (simp add: get_def unop_def wf_def in_indices_iff ravel_less)

lemma shape_unop [simp]: "shape (unop f a) = shape a"
  by (simp add: unop_def)

lemma get_scalar [simp]: "get (scalar c) [] = c"
  by (simp add: get_def scalar_def)

lemma shape_scalar [simp]: "shape (scalar c) = []"
  by (simp add: scalar_def)

section \<open>Lemmas about the operations\<close>

lemma binop_to:
  assumes "broadcast_shape (shape a) (shape b) = Some s"
    and "\<And>idx. idx \<in> set (indices s) \<Longrightarrow>
           f (get a (proj (shape a) idx)) (get b (proj (shape b) idx)) = h idx"
  shows "binop f a b = Inr (build s h)"
proof -
  have "build s (\<lambda>idx. f (get a (proj (shape a) idx)) (get b (proj (shape b) idx))) = build s h"
    by (rule build_cong) (rule assms(2))
  then show ?thesis by (simp add: binop_def assms(1))
qed

lemma ebind_Inr [simp]: "ebind (Inr v) k = k v"
  by (simp add: ebind_def)

lemma ebind_Inl [simp]: "ebind (Inl e) k = Inl e"
  by (simp add: ebind_def)

lemma z_of_build:
  assumes b1: "broadcast_shape (shape x) (shape (current (loc D))) = Some s1"
    and b2: "broadcast_shape s1 (shape S) = Some rs"
  shows "z_of D x (Some S) =
           Inr (build rs (\<lambda>idx. fdiv (fsub (get x (proj (shape x) idx))
                                         (get (current (loc D)) (proj (shape (current (loc D))) idx)))
                                   (get S (proj (shape S) idx))))"
proof -
  let ?L = "current (loc D)"
  let ?gd = "\<lambda>idx. fsub (get x (proj (shape x) idx)) (get ?L (proj (shape ?L) idx))"
  have d: "binop fsub x ?L = Inr (build s1 ?gd)"
    by (rule binop_to [OF b1]) simp
  have "binop fdiv (build s1 ?gd) S =
          Inr (build rs (\<lambda>idx. fdiv (?gd idx) (get S (proj (shape S) idx))))"
  proof (rule binop_to)
    show "broadcast_shape (shape (build s1 ?gd)) (shape S) = Some rs"
      by (simp add: shape_build b2)
  next
    fix idx assume idx: "idx \<in> set (indices rs)"
    have v: "proj s1 idx \<in> set (indices s1)" using valid_proj(1) [OF b2 idx] .
    show "fdiv (get (build s1 ?gd) (proj (shape (build s1 ?gd)) idx)) (get S (proj (shape S) idx))
          = fdiv (?gd idx) (get S (proj (shape S) idx))"
      by (simp add: shape_build get_build [OF v] proj_proj [OF b1])
  qed
  then show ?thesis by (simp add: z_of_def d)
qed

lemma binop_scalar_build:
  "binop f (scalar c) (build s g) = Inr (build s (\<lambda>idx. f c (g idx)))"
  by (rule binop_to) (simp_all add: shape_build get_build proj_valid_id)

lemma binop_scalar_unop:
  assumes "wf b"
  shows "binop f (scalar c) (unop u b) = Inr (build (shape b) (\<lambda>idx. f c (u (get b idx))))"
  by (rule binop_to) (simp_all add: get_unop assms proj_valid_id)

lemma binop_build_same:
  "binop f (build s g1) (build s g2) = Inr (build s (\<lambda>idx. f (g1 idx) (g2 idx)))"
  by (rule binop_to) (simp_all add: shape_build get_build proj_valid_id)

lemma binop_build_small:
  assumes "broadcast_shape s s2 = Some s"
  shows "binop f (build s g1) (build s2 g2) = Inr (build s (\<lambda>idx. f (g1 idx) (g2 (proj s2 idx))))"
proof (rule binop_to)
  show "broadcast_shape (shape (build s g1)) (shape (build s2 g2)) = Some s"
    by (simp add: shape_build assms)
next
  fix idx assume idx: "idx \<in> set (indices s)"
  show "f (get (build s g1) (proj (shape (build s g1)) idx))
          (get (build s2 g2) (proj (shape (build s2 g2)) idx)) = f (g1 idx) (g2 (proj s2 idx))"
    by (simp add: shape_build proj_valid_id [OF idx] get_build [OF idx]
        get_build [OF valid_proj(2) [OF assms idx]])
qed

lemma log_prob_build:
  assumes wfS: "wf (current (scale D))"
    and b1: "broadcast_shape (shape x) (shape (current (loc D))) = Some s1"
    and b2: "broadcast_shape s1 (shape (current (scale D))) = Some rs"
  shows "log_prob D x =
           Inr (build rs (\<lambda>idx. log_pdf_formula (get x (proj (shape x) idx))
                  (get (current (loc D)) (proj (shape (current (loc D))) idx))
                  (get (current (scale D)) (proj (shape (current (scale D))) idx))))"
proof -
  let ?S = "current (scale D)"
  have abs: "broadcast_shape rs (shape ?S) = Some rs"
    using broadcast_shape_absorb(1) [OF b2] .
  show ?thesis
    by (simp add: log_prob_def Let_def z_of_build [OF b1 b2] unop_build binop_scalar_build
        binop_build_same binop_scalar_unop [OF wfS] binop_build_small [OF abs]
        log_pdf_formula_def)
qed

lemma get_in_set: "wf t \<Longrightarrow> idx \<in> set (indices (shape t)) \<Longrightarrow> get t idx \<in> set (elems t)"
  by (simp add: get_def wf_def in_indices_iff ravel_less)

lemma get_is_fin:
  "wf t \<Longrightarrow> list_all is_fin (elems t) \<Longrightarrow> idx \<in> set (indices (shape t)) \<Longrightarrow> \<exists>a. get t idx = Fin a"
proof -
  assume "wf t" "list_all is_fin (elems t)" "idx \<in> set (indices (shape t))"
  then have "is_fin (get t idx)" using get_in_set [of t idx] by (simp add: list_all_iff)
  then show ?thesis by (cases "get t idx") simp_all
qed

lemma get_fpos:
  "wf t \<Longrightarrow> list_all fpos (elems t) \<Longrightarrow> idx \<in> set (indices (shape t)) \<Longrightarrow> fpos (get t idx)"
  using get_in_set [of t idx] by (simp add: list_all_iff)

lemma log_pdf_formula_at_loc: "fpos s \<Longrightarrow> log_pdf_formula (Fin a) (Fin a) s = NInf"
  by (cases s) (simp_all add: log_pdf_formula_def fsub_def fsquare_def)

lemma fadd_NaN_right [simp]: "fadd x NaN = NaN"
  by (cases x) simp_all

lemma fsub_NaN [simp]: "fsub x NaN = NaN" "fsub NaN x = NaN"
  by (simp_all add: fsub_def)

lemma log_pdf_formula_nonpos: "\<not> fpos s \<Longrightarrow> log_pdf_formula xv lv s = NaN"
proof (cases s)
  case (Fin b)
  assume "\<not> fpos s"
  then have b: "b \<le> 0" using Fin by simp
  show ?thesis
  proof (cases "b = 0")
    case True
    then show ?thesis using Fin
      by (cases "fsub xv lv") (simp_all add: log_pdf_formula_def fsquare_def Let_def)
  next
    case False
    then have "b < 0" using b by simp
    then show ?thesis using Fin by (simp add: log_pdf_formula_def Let_def)
  qed
qed (simp_all add: log_pdf_formula_def Let_def)

lemma upt_0_2: "[0..<2] = [0, Suc 0]"
  by (simp add: eval_nat_numeral)

lemma fmul_one_right [simp]: "fmul x (Fin 1) = x"
  by (cases x) simp_all

lemma binop_build_build:
  assumes "broadcast_shape s1 s2 = Some s"
  shows "binop f (build s1 g1) (build s2 g2)
         = Inr (build s (\<lambda>idx. f (g1 (proj s1 idx)) (g2 (proj s2 idx))))"
proof (rule binop_to)
  show "broadcast_shape (shape (build s1 g1)) (shape (build s2 g2)) = Some s"
    by (simp add: shape_build assms)
next
  fix idx assume idx: "idx \<in> set (indices s)"
  show "f (get (build s1 g1) (proj (shape (build s1 g1)) idx))
          (get (build s2 g2) (proj (shape (build s2 g2)) idx))
        = f (g1 (proj s1 idx)) (g2 (proj s2 idx))"
    by (simp add: shape_build get_build [OF valid_proj(1) [OF assms idx]]
        get_build [OF valid_proj(2) [OF assms idx]])
qed

lemma binop_scalar_raw: "binop f (scalar c) b = Inr (build (shape b) (\<lambda>idx. f c (get b idx)))"
  by (rule binop_to) (simp_all add: proj_valid_id)

lemma mean_build:
  assumes "broadcast_shape (shape (current (loc D))) (shape (current (scale D))) = Some bs"
  shows "mean D = Inr (build bs (\<lambda>idx. get (current (loc D)) (proj (shape (current (loc D))) idx)))"
  unfolding mean_def ones_like_def
proof (rule binop_to)
  show "broadcast_shape (shape (current (loc D)))
          (shape (build (shape (current (scale D))) (\<lambda>_. Fin 1))) = Some bs"
    by (simp add: shape_build assms)
next
  fix idx assume idx: "idx \<in> set (indices bs)"
  show "fmul (get (current (loc D)) (proj (shape (current (loc D))) idx))
          (get (build (shape (current (scale D))) (\<lambda>_. Fin 1))
             (proj (shape (build (shape (current (scale D))) (\<lambda>_. Fin 1))) idx))
        = get (current (loc D)) (proj (shape (current (loc D))) idx)"
    by (simp add: shape_build get_build [OF valid_proj(2) [OF assms idx]])
qed

lemma stddev_build:
  assumes "broadcast_shape (shape (current (loc D))) (shape (current (scale D))) = Some bs"
  shows "stddev D = Inr (build bs (\<lambda>idx. fmul (Fin (sqrt 3))
                      (get (current (scale D)) (proj (shape (current (scale D))) idx))))"
proof -
  have c: "broadcast_shape (shape (current (scale D))) (shape (current (loc D))) = Some bs"
    using assms by (simp add: broadcast_shape_commute)
  show ?thesis
    by (simp add: stddev_def ones_like_def binop_scalar_raw binop_build_build [OF c])
qed

lemma fadd_commute: "fadd a b = fadd b a"
  by (cases a; cases b) simp_all

lemma fmul_commute: "fmul a b = fmul b a"
  by (cases a; cases b) simp_all

lemma fmul_assoc: "fmul (fmul a b) c = fmul a (fmul b c)"
  by (cases a; cases b; cases c)
     (auto simp: zero_less_mult_iff mult_less_0_iff not_less order_le_less)

lemma fadd_zero_left [simp]: "fadd (Fin 0) x = x"
  by (cases x) simp_all

lemma upt_0_3: "[0..<3] = [0, Suc 0, 2]"
  by (simp add: eval_nat_numeral)

lemma in_indices_snoc:
  "idx \<in> set (indices sh) \<Longrightarrow> k < d \<Longrightarrow> idx @ [k] \<in> set (indices (sh @ [d]))"
  by (simp add: in_indices_iff list_all2_appendI)

lemma tf_norm_random_normal:
  "tf_norm (random_normal R (sh @ [3]) sd) =
     Inr (build sh (\<lambda>idx. fsqrt (fadd (fadd
            (fsquare (Fin (normal_draw R sd (sh @ [3]) (idx @ [0]))))
            (fsquare (Fin (normal_draw R sd (sh @ [3]) (idx @ [1])))))
            (fsquare (Fin (normal_draw R sd (sh @ [3]) (idx @ [2]))))))) "
proof -
  let ?t = "random_normal R (sh @ [3]) sd"
  have sh: "shape ?t = sh @ [3]" by (simp add: random_normal_def shape_build)
  have "build sh (\<lambda>idx. fsqrt (foldl fadd (Fin 0)
            (map (\<lambda>k. fsquare (get ?t (idx @ [k]))) [0..<3])))
        = build sh (\<lambda>idx. fsqrt (fadd (fadd
            (fsquare (Fin (normal_draw R sd (sh @ [3]) (idx @ [0]))))
            (fsquare (Fin (normal_draw R sd (sh @ [3]) (idx @ [1])))))
            (fsquare (Fin (normal_draw R sd (sh @ [3]) (idx @ [2]))))))"
  proof (rule build_cong)
    fix idx assume idx: "idx \<in> set (indices sh)"
    have g: "\<And>k. k < 3 \<Longrightarrow> get ?t (idx @ [k]) = Fin (normal_draw R sd (sh @ [3]) (idx @ [k]))"
      unfolding random_normal_def by (rule get_build) (rule in_indices_snoc [OF idx])
    show "fsqrt (foldl fadd (Fin 0) (map (\<lambda>k. fsquare (get ?t (idx @ [k]))) [0..<3]))
          = fsqrt (fadd (fadd
            (fsquare (Fin (normal_draw R sd (sh @ [3]) (idx @ [0]))))
            (fsquare (Fin (normal_draw R sd (sh @ [3]) (idx @ [1])))))
            (fsquare (Fin (normal_draw R sd (sh @ [3]) (idx @ [2])))))"
      using g [of 0] g [of 1] g [of 2] by (simp add: upt_0_3 fsquare_def)
  qed
  then show ?thesis by (simp add: tf_norm_def sh)
qed

lemma binop_build_raw:
  assumes "broadcast_shape s (shape b) = Some s"
  shows "binop f (build s g) b = Inr (build s (\<lambda>idx. f (g idx) (get b (proj (shape b) idx))))"
proof (rule binop_to)
  show "broadcast_shape (shape (build s g)) (shape b) = Some s"
    by (simp add: shape_build assms)
next
  fix idx assume idx: "idx \<in> set (indices s)"
  show "f (get (build s g) (proj (shape (build s g)) idx)) (get b (proj (shape b) idx))
        = f (g idx) (get b (proj (shape b) idx))"
    by (simp add: shape_build proj_valid_id [OF idx] get_build [OF idx])
qed

lemma broadcast_batch_Cons:
  assumes "broadcast_shape a b = Some bs"
  shows "broadcast_shape (n # bs) a = Some (n # bs)" and "broadcast_shape (n # bs) b = Some (n # bs)"
proof -
  have l: "length a \<le> length bs" "length b \<le> length bs"
    using broadcast_shape_length [OF assms] by simp_all
  show "broadcast_shape (n # bs) a = Some (n # bs)"
    by (simp add: broadcast_shape_Cons [OF l(1)] broadcast_shape_absorb(2) [OF assms])
  show "broadcast_shape (n # bs) b = Some (n # bs)"
    by (simp add: broadcast_shape_Cons [OF l(2)] broadcast_shape_absorb(1) [OF assms])
qed

lemma seed_call_first:
  "seed_call R (SeedStream seed ''DoublesidedMaxwell'')
   = (subseed R seed 1, \<lparr>ss_seed = seed, ss_salt = ''DoublesidedMaxwell'', ss_counter = 1\<rparr>)"
  by (simp add: seed_call_def SeedStream_def subseed_def)

lemma seed_call_second:
  "seed_call R \<lparr>ss_seed = seed, ss_salt = ''DoublesidedMaxwell'', ss_counter = 1\<rparr>
   = (subseed R seed 2, \<lparr>ss_seed = seed, ss_salt = ''DoublesidedMaxwell'', ss_counter = 2\<rparr>)"
  by (simp add: seed_call_def subseed_def numeral_2_eq_2)

lemma pad_front: "pad bs 1 0 n = n # bs"
  by (simp add: pad_def)

lemma pad_back: "pad sh 0 1 d = sh @ [d]"
  by (simp add: pad_def)

lemma sample_n_build:
  assumes bs: "broadcast_shape (shape (current (loc D))) (shape (current (scale D))) = Some bs"
  shows "sample_n R D n seed =
    Inr (build (n # bs) (\<lambda>idx.
      fadd (fmul (fmul (if sign_draw R (subseed R seed 2) (n # bs) idx then Fin 1 else Fin (- 1))
                   (fsqrt (fadd (fadd
                      (fsquare (Fin (normal_draw R (subseed R seed 1) (n # bs @ [3]) (idx @ [0]))))
                      (fsquare (Fin (normal_draw R (subseed R seed 1) (n # bs @ [3]) (idx @ [1])))))
                      (fsquare (Fin (normal_draw R (subseed R seed 1) (n # bs @ [3]) (idx @ [2])))))))
                 (get (current (scale D)) (proj (shape (current (scale D))) idx)))
           (get (current (loc D)) (proj (shape (current (loc D))) idx))))"
  unfolding sample_n_def Let_def batch_shape_tensor_def option.case broadcast_dynamic_shape_def bs
    ebind_Inr pad_front pad_back seed_call_first seed_call_second prod.case
    tf_norm_random_normal random_rademacher_def binop_build_same
    binop_build_raw [OF broadcast_batch_Cons(1) [OF bs]]
    binop_build_raw [OF broadcast_batch_Cons(2) [OF bs]]
  by simp

lemma sample_n_swapped_build:
  assumes bs: "broadcast_shape (shape (current (loc D))) (shape (current (scale D))) = Some bs"
  shows "sample_n_swapped R D n seed =
    Inr (build (n # bs) (\<lambda>idx.
      fadd (fmul (fmul (if sign_draw R (subseed R seed 1) (n # bs) idx then Fin 1 else Fin (- 1))
                   (fsqrt (fadd (fadd
                      (fsquare (Fin (normal_draw R (subseed R seed 2) (n # bs @ [3]) (idx @ [0]))))
                      (fsquare (Fin (normal_draw R (subseed R seed 2) (n # bs @ [3]) (idx @ [1])))))
                      (fsquare (Fin (normal_draw R (subseed R seed 2) (n # bs @ [3]) (idx @ [2])))))))
                 (get (current (scale D)) (proj (shape (current (scale D))) idx)))
           (get (current (loc D)) (proj (shape (current (loc D))) idx))))"
  unfolding sample_n_swapped_def Let_def batch_shape_tensor_def option.case broadcast_dynamic_shape_def bs
    ebind_Inr pad_front pad_back seed_call_first seed_call_second prod.case
    tf_norm_random_normal random_rademacher_def binop_build_same
    binop_build_raw [OF broadcast_batch_Cons(1) [OF bs]]
    binop_build_raw [OF broadcast_batch_Cons(2) [OF bs]]
  by simp

lemma floor_log2_unit: "1 \<le> x \<Longrightarrow> x < 2 \<Longrightarrow> \<lfloor>log 2 x\<rfloor> = 0"
proof -
  assume a: "1 \<le> x" "x < 2"
  have "0 \<le> log 2 x" using a by simp
  moreover have "log 2 x < log 2 2" using a by (subst log_less_cancel_iff) simp_all
  ultimately show ?thesis by (simp add: floor_eq_iff)
qed

lemma floor_log2_half: "1 / 2 \<le> x \<Longrightarrow> x < 1 \<Longrightarrow> \<lfloor>log 2 x\<rfloor> = - 1"
proof -
  assume a: "1 / 2 \<le> x" "x < 1"
  have "log 2 (1 / 2) \<le> log 2 x" using a by (subst log_le_cancel_iff) simp_all
  then have "- 1 \<le> log 2 x" by (simp add: log_divide)
  moreover have "log 2 x < 0" using a by simp
  ultimately show ?thesis by (simp add: floor_eq_iff)
qed

lemma round_float32_up: "round_float32 (1 + 1 / 2 ^ 24) = 1"
proof -
  have e: "\<lfloor>log 2 \<bar>1 + 1 / 2 ^ 24 :: real\<bar>\<rfloor> = 0"
    by (rule floor_log2_unit [of "\<bar>1 + 1 / 2 ^ 24\<bar>"]) simp_all
  have u: "2 powr (of_int 0 - 23) = (1 / 2 ^ 23 :: real)"
    by (simp add: powr_minus_divide)
  have q: "(1 + 1 / 2 ^ 24) / (1 / 2 ^ 23) = (8388608 + 1 / 2 :: real)" by simp
  have f: "\<lfloor>8388608 + 1 / 2 :: real\<rfloor> = 8388608" by (simp add: floor_eq_iff)
  have r: "round_half_even (8388608 + 1 / 2) = 8388608"
    by (simp add: round_half_even_def f Let_def)
  show ?thesis
    unfolding round_float32_def e Let_def u q r by simp
qed

lemma round_float32_down: "round_float32 (1 - 1 / 2 ^ 24) = 1 - 1 / 2 ^ 24"
proof -
  have e: "\<lfloor>log 2 \<bar>1 - 1 / 2 ^ 24 :: real\<bar>\<rfloor> = - 1"
    by (rule floor_log2_half [of "\<bar>1 - 1 / 2 ^ 24\<bar>"]) simp_all
  have u: "2 powr (of_int (- 1) - 23) = (1 / 2 ^ 24 :: real)"
    by (simp add: powr_minus_divide)
  have q: "(1 - 1 / 2 ^ 24) / (1 / 2 ^ 24) = (16777215 :: real)" by simp
  have r: "round_half_even 16777215 = 16777215"
    by (simp add: round_half_even_def Let_def)
  show ?thesis
    unfolding round_float32_def e Let_def u q r by simp
qed

lemma cast_float32_scalar: "cast_float32 (scalar v) = scalar (to_float32 v)"
  by (simp add: cast_float32_def unop_def scalar_def)

lemma fsquare_fdiv_fneg: "fsquare (fdiv (fneg a) b) = fsquare (fdiv a b)"
  by (cases a; cases b) (simp_all add: fsquare_def)

lemma binop_Inr_build:
  assumes "binop f a b = Inr r"
  shows "\<exists>s g. r = build s g"
  using assms by (auto simp: binop_def split: option.splits)

lemma fdiv_neg_square:
  assumes "wf u"
  shows "(case binop fdiv (unop fneg u) S of Inl e \<Rightarrow> Inl e | Inr z \<Rightarrow> Inr (unop fsquare z))
       = (case binop fdiv u S of Inl e \<Rightarrow> Inl e | Inr z \<Rightarrow> Inr (unop fsquare z))"
proof (cases "broadcast_shape (shape u) (shape S)")
  case None
  then show ?thesis by (simp add: binop_def)
next
  case (Some rs)
  have "build rs (\<lambda>idx. fsquare (fdiv (get (unop fneg u) (proj (shape u) idx)) (get S (proj (shape S) idx))))
      = build rs (\<lambda>idx. fsquare (fdiv (get u (proj (shape u) idx)) (get S (proj (shape S) idx))))"
  proof (rule build_cong)
    fix idx assume idx: "idx \<in> set (indices rs)"
    have g: "get (unop fneg u) (proj (shape u) idx) = fneg (get u (proj (shape u) idx))"
      by (rule get_unop [OF assms valid_proj(1) [OF Some idx]])
    show "fsquare (fdiv (get (unop fneg u) (proj (shape u) idx)) (get S (proj (shape S) idx)))
        = fsquare (fdiv (get u (proj (shape u) idx)) (get S (proj (shape S) idx)))"
      unfolding g by (rule fsquare_fdiv_fneg)
  qed
  then show ?thesis by (simp add: binop_def Some unop_build)
qed

lemma ebind_via_case:
  "ebind m (\<lambda>z. k (unop fsquare z))
   = ebind (case m of Inl e \<Rightarrow> Inl e | Inr z \<Rightarrow> Inr (unop fsquare z)) k"
  by (cases m) simp_all

lemma build_eq_iff: "build s f = build s g \<longleftrightarrow> (\<forall>idx \<in> set (indices s). f idx = g idx)"
  by (simp add: build_def)

lemma sample_n_value:
  assumes bs: "broadcast_shape (shape (current (loc D))) (shape (current (scale D))) = Some bs"
  shows "sample_n R D n seed = Inr (build (n # bs) (sample_value R D seed 1 2 (n # bs)))"
proof -
  have "build (n # bs) (\<lambda>idx.
      fadd (fmul (fmul (if sign_draw R (subseed R seed 2) (n # bs) idx then Fin 1 else Fin (- 1))
                   (fsqrt (fadd (fadd
                      (fsquare (Fin (normal_draw R (subseed R seed 1) (n # bs @ [3]) (idx @ [0]))))
                      (fsquare (Fin (normal_draw R (subseed R seed 1) (n # bs @ [3]) (idx @ [1])))))
                      (fsquare (Fin (normal_draw R (subseed R seed 1) (n # bs @ [3]) (idx @ [2])))))))
                 (get (current (scale D)) (proj (shape (current (scale D))) idx)))
           (get (current (loc D)) (proj (shape (current (loc D))) idx)))
      = build (n # bs) (sample_value R D seed 1 2 (n # bs))"
    by (rule build_cong)
       (simp add: sample_value_def sample_formula_def fadd_commute [of "fmul _ _"] fmul_assoc
          fmul_commute [of _ "get _ _"])
  then show ?thesis unfolding sample_n_build [OF bs] by simp
qed

lemma sample_n_swapped_value:
  assumes bs: "broadcast_shape (shape (current (loc D))) (shape (current (scale D))) = Some bs"
  shows "sample_n_swapped R D n seed = Inr (build (n # bs) (sample_value R D seed 2 1 (n # bs)))"
proof -
  have "build (n # bs) (\<lambda>idx.
      fadd (fmul (fmul (if sign_draw R (subseed R seed 1) (n # bs) idx then Fin 1 else Fin (- 1))
                   (fsqrt (fadd (fadd
                      (fsquare (Fin (normal_draw R (subseed R seed 2) (n # bs @ [3]) (idx @ [0]))))
                      (fsquare (Fin (normal_draw R (subseed R seed 2) (n # bs @ [3]) (idx @ [1])))))
                      (fsquare (Fin (normal_draw R (subseed R seed 2) (n # bs @ [3]) (idx @ [2])))))))
                 (get (current (scale D)) (proj (shape (current (scale D))) idx)))
           (get (current (loc D)) (proj (shape (current (loc D))) idx)))
      = build (n # bs) (sample_value R D seed 2 1 (n # bs))"
    by (rule build_cong)
       (simp add: sample_value_def sample_formula_def fadd_commute [of "fmul _ _"] fmul_assoc
          fmul_commute [of _ "get _ _"])
  then show ?thesis unfolding sample_n_swapped_build [OF bs] by simp
qed

lemma sample_swap_iff:
  assumes bs: "broadcast_shape (shape (current (loc D))) (shape (current (scale D))) = Some bs"
  shows "sample_n R D n seed \<noteq> sample_n_swapped R D n seed \<longleftrightarrow>
        (\<exists>idx \<in> set (indices (n # bs)).
           sample_value R D seed 1 2 (n # bs) idx \<noteq> sample_value R D seed 2 1 (n # bs) idx)"
  unfolding sample_n_value [OF bs] sample_n_swapped_value [OF bs] sum.inject build_eq_iff
  by blast

lemma ex_batch_shape:
  "broadcast_shape (shape (current (loc ex_dist))) (shape (current (scale ex_dist))) = Some [2]"
  by (simp add: ex_dist_def ex_loc_def ex_scale_def)

lemma indices_1_2: "indices [1, 2] = [[0, 0], [0, 1]]"
  by (simp add: upt_0_2)

lemma ex_swap_differs:
  "sample_n ex_rng ex_dist 1 (Some 1) \<noteq> sample_n_swapped ex_rng ex_dist 1 (Some 1)"
proof -
  have s: "subseed ex_rng (Some 1) 1 = Some 2" "subseed ex_rng (Some 1) 2 = Some 3"
    by (simp_all add: subseed_def ex_rng_def)
  have v12: "sample_value ex_rng ex_dist (Some 1) 1 2 [1, 2] [0, 0] = Fin (1 - 11 * sqrt 3)"
    unfolding sample_value_def s
    by (simp add: sample_formula_def ex_rng_def ex_dist_def ex_loc_def
        ex_scale_def proj_def get_def fsquare_def)
  have v21: "sample_value ex_rng ex_dist (Some 1) 2 1 [1, 2] [0, 0] = Fin (1 + 11 * sqrt 12)"
    unfolding sample_value_def s
    by (simp add: sample_formula_def ex_rng_def ex_dist_def ex_loc_def
        ex_scale_def proj_def get_def fsquare_def)
  have "0 < sqrt 3" "0 < sqrt 12" by simp_all
  then have "1 - 11 * sqrt 3 < 1 + 11 * sqrt 12" by linarith
  then have ne: "Fin (1 - 11 * sqrt 3) \<noteq> Fin (1 + 11 * sqrt 12)" by simp
  have m: "[0, 0] \<in> set (indices [1, 2])" unfolding indices_1_2 by simp
  have "sample_value ex_rng ex_dist (Some 1) 1 2 [1, 2] [0, 0]
           \<noteq> sample_value ex_rng ex_dist (Some 1) 2 1 [1, 2] [0, 0]"
    unfolding v12 v21 by (rule ne)
  then have "\<exists>idx \<in> set (indices [1, 2]).
           sample_value ex_rng ex_dist (Some 1) 1 2 [1, 2] idx
           \<noteq> sample_value ex_rng ex_dist (Some 1) 2 1 [1, 2] idx"
    using m by blast
  then show ?thesis
    using sample_swap_iff [OF ex_batch_shape, of ex_rng 1 "Some 1"] by blast
qed

section \<open>Claims\<close>

text \<open>
  C1. For every input \<open>x\<close> broadcastable against the batch shape, \<open>log_prob x\<close> returns a
  tensor of the broadcast shape of \<open>x\<close>, \<open>loc\<close> and \<open>scale\<close> whose element at every position
  is \<open>(-0.5 * z^2 + log (z^2)) - (0.5 * log (2 * pi) + log scale)\<close> with
  \<open>z = (x - loc) / scale\<close>, taken at the elements of \<open>x\<close>, \<open>loc\<close> and \<open>scale\<close> that broadcast to
  that position.
\<close>

theorem log_prob_elementwise:
  assumes "wf x" and "wf (current (loc D))" and "wf (current (scale D))"
    and bs: "broadcast_shape (shape (current (loc D))) (shape (current (scale D))) = Some bs"
    and rs: "broadcast_shape (shape x) bs = Some rs"
  shows "\<exists>r. log_prob D x = Inr r \<and> shape r = rs \<and> wf r \<and>
           (\<forall>idx \<in> set (indices rs).
              get r idx = log_pdf_formula (get x (proj (shape x) idx))
                (get (current (loc D)) (proj (shape (current (loc D))) idx))
                (get (current (scale D)) (proj (shape (current (scale D))) idx)))"
proof -
  let ?L = "current (loc D)" and ?S = "current (scale D)"
  have "Option.bind (broadcast_shape (shape x) (shape ?L)) (\<lambda>s. broadcast_shape s (shape ?S)) = Some rs"
    by (simp add: broadcast_shape_assoc bs rs)
  then obtain s1 where b1: "broadcast_shape (shape x) (shape ?L) = Some s1"
    and b2: "broadcast_shape s1 (shape ?S) = Some rs"
    by (auto simp: bind_eq_Some_conv)
  show ?thesis
    by (simp add: log_prob_build [OF assms(3) b1 b2] shape_build wf_build get_build)
qed

theorem log_prob_elementwise_witness:
  "wf ex_x \<and> wf (current (loc ex_dist)) \<and> wf (current (scale ex_dist))
   \<and> broadcast_shape (shape (current (loc ex_dist))) (shape (current (scale ex_dist))) = Some [2]
   \<and> broadcast_shape (shape ex_x) [2] = Some [2]
   \<and> (\<exists>r. log_prob ex_dist ex_x = Inr r \<and> shape r = [2]
         \<and> get r [0] = log_pdf_formula (Fin 0) (Fin 1) (Fin 11)
         \<and> get r [1] = log_pdf_formula (Fin 1.5) (Fin 2) (Fin 22))"
  using log_prob_elementwise [of ex_x ex_dist "[2]" "[2]"]
  by (auto simp add: ex_x_def ex_dist_def ex_loc_def ex_scale_def wf_def upt_0_2 proj_def get_def)

text \<open>
  C8. For every real \<open>loc\<close> and every \<open>scale > 0\<close>, \<open>log_prob loc\<close> is negative infinity at
  every position of the batch shape: a value, not an error.
\<close>

theorem log_prob_at_loc:
  assumes wfL: "wf (current (loc D))" and wfS: "wf (current (scale D))"
    and fin: "list_all is_fin (elems (current (loc D)))"
    and pos: "list_all fpos (elems (current (scale D)))"
    and bs: "broadcast_shape (shape (current (loc D))) (shape (current (scale D))) = Some bs"
  shows "log_prob D (current (loc D)) = Inr (build bs (\<lambda>idx. NInf))"
proof -
  let ?L = "current (loc D)" and ?S = "current (scale D)"
  have b1: "broadcast_shape (shape ?L) (shape ?L) = Some (shape ?L)" by simp
  have "build bs (\<lambda>idx. log_pdf_formula (get ?L (proj (shape ?L) idx))
                  (get ?L (proj (shape ?L) idx)) (get ?S (proj (shape ?S) idx)))
        = build bs (\<lambda>idx. NInf)"
  proof (rule build_cong)
    fix idx assume idx: "idx \<in> set (indices bs)"
    obtain a where a: "get ?L (proj (shape ?L) idx) = Fin a"
      using get_is_fin [OF wfL fin valid_proj(1) [OF bs idx]] by blast
    have s: "fpos (get ?S (proj (shape ?S) idx))"
      using get_fpos [OF wfS pos valid_proj(2) [OF bs idx]] .
    show "log_pdf_formula (get ?L (proj (shape ?L) idx))
                  (get ?L (proj (shape ?L) idx)) (get ?S (proj (shape ?S) idx)) = NInf"
      by (simp add: a log_pdf_formula_at_loc [OF s])
  qed
  then show ?thesis by (simp add: log_prob_build [OF wfS b1 bs])
qed

theorem log_prob_at_loc_witness:
  "wf (current (loc ex_dist)) \<and> wf (current (scale ex_dist))
   \<and> list_all is_fin (elems (current (loc ex_dist)))
   \<and> list_all fpos (elems (current (scale ex_dist)))
   \<and> broadcast_shape (shape (current (loc ex_dist))) (shape (current (scale ex_dist))) = Some [2]
   \<and> log_prob ex_dist (current (loc ex_dist)) = Inr \<lparr>shape = [2], elems = [NInf, NInf]\<rparr>"
  using log_prob_at_loc [of ex_dist "[2]"]
  by (simp add: ex_dist_def ex_loc_def ex_scale_def wf_def upt_0_2 build_def)

text \<open>
  C9 as stated fails on the inputs that reach the program. With \<open>loc = 1\<close>, \<open>scale = 1\<close> and
  \<open>d = 2^-24\<close>, all of them \<open>float32\<close> values, the sum \<open>loc + d\<close> is a tie between two
  \<open>float32\<close> values and becomes \<open>1\<close>, while \<open>loc - d = 1 - 2^-24\<close> is a \<open>float32\<close> value.
  \<open>log_prob\<close> is \<open>-inf\<close> at the first and finite at the second. At these two inputs the
  offset from \<open>loc\<close>, its quotient by \<open>scale\<close> and the square are \<open>float32\<close> values as well
  (\<open>0\<close>, and \<open>-2^-24\<close> with the square \<open>2^-48\<close>), so rounding them changes nothing.
\<close>

theorem log_prob_symmetric_counterexample:
  "binop fadd (current (loc ex_std)) ex_eps = Inr (scalar (Fin (1 + 1 / 2 ^ 24)))
   \<and> binop fsub (current (loc ex_std)) ex_eps = Inr (scalar (Fin (1 - 1 / 2 ^ 24)))
   \<and> cast_float32 (scalar (Fin (1 + 1 / 2 ^ 24))) = scalar (Fin 1)
   \<and> cast_float32 (scalar (Fin (1 - 1 / 2 ^ 24))) = scalar (Fin (1 - 1 / 2 ^ 24))
   \<and> log_prob ex_std (scalar (Fin 1)) = Inr (scalar NInf)
   \<and> returns_finite (log_prob ex_std (scalar (Fin (1 - 1 / 2 ^ 24))))
   \<and> log_prob ex_std (cast_float32 (scalar (Fin (1 + 1 / 2 ^ 24))))
       \<noteq> log_prob ex_std (cast_float32 (scalar (Fin (1 - 1 / 2 ^ 24))))"
proof -
  have a: "binop fadd (current (loc ex_std)) ex_eps = Inr (scalar (Fin (1 + 1 / 2 ^ 24)))"
    and b: "binop fsub (current (loc ex_std)) ex_eps = Inr (scalar (Fin (1 - 1 / 2 ^ 24)))"
    by (simp_all add: ex_std_def ex_eps_def binop_def build_def scalar_def get_def proj_def fsub_def)
  have c: "cast_float32 (scalar (Fin (1 + 1 / 2 ^ 24))) = scalar (Fin 1)"
    unfolding cast_float32_scalar to_float32.simps round_float32_up ..
  have d: "cast_float32 (scalar (Fin (1 - 1 / 2 ^ 24))) = scalar (Fin (1 - 1 / 2 ^ 24))"
    unfolding cast_float32_scalar to_float32.simps round_float32_down ..
  have w: "wf (current (scale ex_std))" by (simp add: ex_std_def scalar_def wf_def)
  have s: "\<And>v. broadcast_shape (shape (scalar v)) (shape (current (loc ex_std))) = Some []"
    "broadcast_shape [] (shape (current (scale ex_std))) = Some []"
    by (simp_all add: ex_std_def)
  have e: "log_prob ex_std (scalar (Fin 1)) = Inr (scalar NInf)"
    unfolding log_prob_build [OF w s]
    by (simp add: build_def scalar_def ex_std_def proj_def get_def log_pdf_formula_at_loc)
  have f: "returns_finite (log_prob ex_std (scalar (Fin (1 - 1 / 2 ^ 24))))"
    unfolding log_prob_build [OF w s]
    by (simp add: build_def scalar_def ex_std_def proj_def get_def log_pdf_formula_def
        fsub_def fsquare_def)
  have "log_prob ex_std (scalar (Fin 1)) \<noteq> log_prob ex_std (scalar (Fin (1 - 1 / 2 ^ 24)))"
  proof
    assume h: "log_prob ex_std (scalar (Fin 1)) = log_prob ex_std (scalar (Fin (1 - 1 / 2 ^ 24)))"
    have "returns_finite (Inr (scalar NInf))" using f unfolding h [symmetric] e .
    then show False by (simp add: scalar_def)
  qed
  then have g: "log_prob ex_std (cast_float32 (scalar (Fin (1 + 1 / 2 ^ 24))))
       \<noteq> log_prob ex_std (cast_float32 (scalar (Fin (1 - 1 / 2 ^ 24))))"
    unfolding c d .
  show ?thesis using a b c d e f g by blast
qed

text \<open>
  C9, as amended. The log-density is symmetric in the offset from \<open>loc\<close> that the program
  computes: when the offsets \<open>x1 - loc\<close> and \<open>x2 - loc\<close> are the negatives of each other,
  element by element, \<open>log_prob x1 = log_prob x2\<close>, whatever \<open>scale\<close> is. The proof rests on
  two facts that rounding keeps: the quotient of a negated offset is the negated quotient,
  and a square does not see the sign.
\<close>

theorem log_prob_symmetric:
  assumes o1: "binop fsub x1 (current (loc D)) = Inr o1"
    and o2: "binop fsub x2 (current (loc D)) = Inr o2"
    and neg: "o1 = unop fneg o2"
  shows "log_prob D x1 = log_prob D x2"
proof -
  let ?S = "current (scale D)"
  define K where "K = (\<lambda>sq.
        ebind (binop fmul (scalar (Fin (- 0.5))) sq) (\<lambda>half_sq.
        ebind (binop fadd half_sq (unop flog sq)) (\<lambda>log_unnormalized_prob.
        ebind (binop fadd (scalar (Fin (0.5 * ln (2 * pi)))) (unop flog ?S))
          (\<lambda>log_normalization.
        binop fsub log_unnormalized_prob log_normalization))))"
  have lp: "\<And>x. log_prob D x =
      ebind (ebind (binop fsub x (current (loc D))) (\<lambda>d. binop fdiv d ?S))
        (\<lambda>z. K (unop fsquare z))"
    by (simp add: log_prob_def z_of_def Let_def K_def)
  have c: "\<And>m. ebind m (\<lambda>z. K (unop fsquare z))
      = ebind (case m of Inl e \<Rightarrow> Inl e | Inr z \<Rightarrow> Inr (unop fsquare z)) K"
    by (rule ebind_via_case)
  obtain s g where "o2 = build s g" using binop_Inr_build [OF o2] by blast
  then have w: "wf o2" by (simp add: wf_build)
  show ?thesis
    unfolding lp o1 o2 ebind_Inr neg c fdiv_neg_square [OF w] ..
qed

theorem log_prob_symmetric_witness:
  "binop fsub \<lparr>shape = [2], elems = [Fin 4, Fin 5]\<rparr> (current (loc ex_dist))
      = Inr \<lparr>shape = [2], elems = [Fin 3, Fin 3]\<rparr>
   \<and> binop fsub \<lparr>shape = [2], elems = [Fin (- 2), Fin (- 1)]\<rparr> (current (loc ex_dist))
      = Inr \<lparr>shape = [2], elems = [Fin (- 3), Fin (- 3)]\<rparr>
   \<and> \<lparr>shape = [2], elems = [Fin 3, Fin 3]\<rparr>
      = unop fneg \<lparr>shape = [2], elems = [Fin (- 3), Fin (- 3)]\<rparr>
   \<and> log_prob ex_dist \<lparr>shape = [2], elems = [Fin 4, Fin 5]\<rparr>
       = log_prob ex_dist \<lparr>shape = [2], elems = [Fin (- 2), Fin (- 1)]\<rparr>"
proof -
  have l: "current (loc ex_dist) = \<lparr>shape = [2], elems = [Fin 1, Fin 2]\<rparr>"
    by (simp add: ex_dist_def ex_loc_def)
  have a: "binop fsub \<lparr>shape = [2], elems = [Fin 4, Fin 5]\<rparr> (current (loc ex_dist))
      = Inr \<lparr>shape = [2], elems = [Fin 3, Fin 3]\<rparr>"
    unfolding l by (simp add: binop_def build_def upt_0_2 proj_def get_def fsub_def)
  have b: "binop fsub \<lparr>shape = [2], elems = [Fin (- 2), Fin (- 1)]\<rparr> (current (loc ex_dist))
      = Inr \<lparr>shape = [2], elems = [Fin (- 3), Fin (- 3)]\<rparr>"
    unfolding l by (simp add: binop_def build_def upt_0_2 proj_def get_def fsub_def)
  have c: "\<lparr>shape = [2], elems = [Fin 3, Fin 3]\<rparr>
      = unop fneg \<lparr>shape = [2], elems = [Fin (- 3), Fin (- 3)]\<rparr>"
    by (simp add: unop_def)
  have d: "log_prob ex_dist \<lparr>shape = [2], elems = [Fin 4, Fin 5]\<rparr>
       = log_prob ex_dist \<lparr>shape = [2], elems = [Fin (- 2), Fin (- 1)]\<rparr>"
    using a b c by (rule log_prob_symmetric)
  show ?thesis using a b c d by blast
qed

text \<open>
  C4. \<open>mean\<close> returns \<open>loc\<close> broadcast to the batch shape and \<open>stddev\<close> returns
  \<open>sqrt 3 * scale\<close> broadcast to the batch shape; for \<open>loc = [1, 2]\<close> and \<open>scale = [11, 22]\<close>
  they are \<open>[1, 2]\<close> and \<open>sqrt 3 * [11, 22]\<close>.
\<close>

theorem mean_stddev_values:
  "(broadcast_shape (shape (current (loc D))) (shape (current (scale D))) = Some bs \<longrightarrow>
      mean D = Inr (build bs (\<lambda>idx. get (current (loc D)) (proj (shape (current (loc D))) idx)))
      \<and> stddev D = Inr (build bs (\<lambda>idx. fmul (Fin (sqrt 3))
                      (get (current (scale D)) (proj (shape (current (scale D))) idx)))))
   \<and> mean ex_dist = Inr \<lparr>shape = [2], elems = [Fin 1, Fin 2]\<rparr>
   \<and> stddev ex_dist = Inr \<lparr>shape = [2], elems = [Fin (sqrt 3 * 11), Fin (sqrt 3 * 22)]\<rparr>"
proof (intro conjI impI)
  assume b: "broadcast_shape (shape (current (loc D))) (shape (current (scale D))) = Some bs"
  show "mean D = Inr (build bs (\<lambda>idx. get (current (loc D)) (proj (shape (current (loc D))) idx)))"
    using b by (rule mean_build)
  show "stddev D = Inr (build bs (\<lambda>idx. fmul (Fin (sqrt 3))
                      (get (current (scale D)) (proj (shape (current (scale D))) idx))))"
    using b by (rule stddev_build)
next
  have e: "broadcast_shape (shape (current (loc ex_dist))) (shape (current (scale ex_dist))) = Some [2]"
    by (simp add: ex_dist_def ex_loc_def ex_scale_def)
  show "mean ex_dist = Inr \<lparr>shape = [2], elems = [Fin 1, Fin 2]\<rparr>"
    unfolding mean_build [OF e]
    by (simp add: build_def upt_0_2 proj_def get_def ex_dist_def ex_loc_def ex_scale_def)
  show "stddev ex_dist = Inr \<lparr>shape = [2], elems = [Fin (sqrt 3 * 11), Fin (sqrt 3 * 22)]\<rparr>"
    unfolding stddev_build [OF e]
    by (simp add: build_def upt_0_2 proj_def get_def ex_dist_def ex_loc_def ex_scale_def)
qed

theorem mean_stddev_values_witness:
  "broadcast_shape (shape (current (loc ex_outer))) (shape (current (scale ex_outer))) = Some [2, 2]
   \<and> mean ex_outer = Inr \<lparr>shape = [2, 2], elems = [Fin 1, Fin 1, Fin 2, Fin 2]\<rparr>
   \<and> stddev ex_outer = Inr \<lparr>shape = [2, 2],
        elems = [Fin (sqrt 3 * 11), Fin (sqrt 3 * 22), Fin (sqrt 3 * 11), Fin (sqrt 3 * 22)]\<rparr>"
  using mean_stddev_values [of ex_outer "[2, 2]"]
  by (simp add: ex_outer_def ex_col_def ex_row_def broadcast_shape_def build_def upt_0_2
      proj_def get_def)

text \<open>
  C5 as stated fails: with \<open>validate_args\<close> off, static shapes \<open>(2,)\<close> and \<open>(3,)\<close> still make
  construction raise, and shapes that do not broadcast at run time make \<open>log_prob\<close> raise.
\<close>

theorem validate_args_off_counterexample:
  "\<not> validate_args ex_bad
   \<and> parameter_control_dependencies ex_bad True =
       Inl (ValueError ''Arguments `loc` and `scale` must have compatible shapes; loc.shape=(2,), scale.shape=(3,).'')
   \<and> log_prob ex_bad ex_x = Inl (InvalidArgumentError ''Incompatible shapes'')"
  by (simp add: ex_bad_def parameter_control_dependencies_def batch_shape_def
      broadcast_static_shape_def str_shape_def str_dim_def log_prob_def z_of_def binop_def
      ex_x_def ex_loc_def ex_scale3_def broadcast_shape_def shape_build)

text \<open>
  C5, as amended. With \<open>validate_args\<close> off the validation hook yields no assertion, on
  an access and, when the static shapes broadcast, at construction: the positivity of
  \<open>scale\<close> is never checked, and \<open>log_prob\<close> returns \<open>NaN\<close> wherever \<open>scale\<close> is not positive
  instead of failing. The construction-time check of the static shapes is performed all
  the same: when they do not broadcast, the hook raises \<open>ValueError\<close> with both shapes in
  the message, the very result it gives with \<open>validate_args\<close> on.
\<close>

theorem validate_args_off:
  assumes "\<not> validate_args D"
  shows "parameter_control_dependencies D False = Inr []
    \<and> (\<forall>s. batch_shape D = Inr s \<longrightarrow> parameter_control_dependencies D True = Inr [])
    \<and> (\<forall>e. batch_shape D = Inl e \<longrightarrow>
          parameter_control_dependencies D True =
            Inl (ValueError (''Arguments `loc` and `scale` must have compatible shapes; ''
                   @ ''loc.shape='' @ str_shape (static_shape (loc D))
                   @ '', scale.shape='' @ str_shape (static_shape (scale D)) @ ''.''))
          \<and> parameter_control_dependencies (D\<lparr>validate_args := True\<rparr>) True =
              parameter_control_dependencies D True)
    \<and> (\<forall>x s1 rs. wf (current (scale D))
          \<and> broadcast_shape (shape x) (shape (current (loc D))) = Some s1
          \<and> broadcast_shape s1 (shape (current (scale D))) = Some rs \<longrightarrow>
          (\<exists>r. log_prob D x = Inr r \<and> shape r = rs \<and>
             (\<forall>idx \<in> set (indices rs).
                \<not> fpos (get (current (scale D)) (proj (shape (current (scale D))) idx))
                \<longrightarrow> get r idx = NaN)))"
proof (intro conjI allI impI)
  show "parameter_control_dependencies D False = Inr []"
    using assms by (simp add: parameter_control_dependencies_def)
next
  fix s assume "batch_shape D = Inr s"
  then show "parameter_control_dependencies D True = Inr []"
    using assms by (simp add: parameter_control_dependencies_def)
next
  fix e assume e: "batch_shape D = Inl e"
  then show "parameter_control_dependencies D True =
            Inl (ValueError (''Arguments `loc` and `scale` must have compatible shapes; ''
                   @ ''loc.shape='' @ str_shape (static_shape (loc D))
                   @ '', scale.shape='' @ str_shape (static_shape (scale D)) @ ''.''))"
    by (simp add: parameter_control_dependencies_def)
  have "batch_shape (D\<lparr>validate_args := True\<rparr>) = Inl e"
    using e by (simp add: batch_shape_def)
  then show "parameter_control_dependencies (D\<lparr>validate_args := True\<rparr>) True =
              parameter_control_dependencies D True"
    using e by (simp add: parameter_control_dependencies_def)
next
  fix x :: tensor and s1 rs
  assume h: "wf (current (scale D))
          \<and> broadcast_shape (shape x) (shape (current (loc D))) = Some s1
          \<and> broadcast_shape s1 (shape (current (scale D))) = Some rs"
  then have lp: "log_prob D x =
           Inr (build rs (\<lambda>idx. log_pdf_formula (get x (proj (shape x) idx))
                  (get (current (loc D)) (proj (shape (current (loc D))) idx))
                  (get (current (scale D)) (proj (shape (current (scale D))) idx))))"
    using log_prob_build [of D x s1 rs] by simp
  show "\<exists>r. log_prob D x = Inr r \<and> shape r = rs \<and>
             (\<forall>idx \<in> set (indices rs).
                \<not> fpos (get (current (scale D)) (proj (shape (current (scale D))) idx))
                \<longrightarrow> get r idx = NaN)"
    by (simp add: lp shape_build get_build log_pdf_formula_nonpos)
qed

theorem validate_args_off_witness:
  "\<not> validate_args ex_neg
   \<and> parameter_control_dependencies ex_neg False = Inr []
   \<and> batch_shape ex_neg = Inr (Some [Some 2])
   \<and> parameter_control_dependencies ex_neg True = Inr []
   \<and> \<not> fpos (get (current (scale ex_neg)) [0])
   \<and> (\<exists>r. log_prob ex_neg ex_x = Inr r \<and> shape r = [2] \<and> get r [0] = NaN)
   \<and> \<not> validate_args ex_bad
   \<and> batch_shape ex_bad = Inl (ValueError ''Incompatible shapes for broadcasting: (2,) and (3,)'')
   \<and> parameter_control_dependencies ex_bad True =
       Inl (ValueError ''Arguments `loc` and `scale` must have compatible shapes; loc.shape=(2,), scale.shape=(3,).'')
   \<and> parameter_control_dependencies (ex_bad\<lparr>validate_args := True\<rparr>) True =
       Inl (ValueError ''Arguments `loc` and `scale` must have compatible shapes; loc.shape=(2,), scale.shape=(3,).'')"
proof -
  have nv: "\<not> validate_args ex_neg" by (simp add: ex_neg_def)
  note t = validate_args_off [OF nv]
  have a: "parameter_control_dependencies ex_neg False = Inr []" using t by blast
  have bsn: "batch_shape ex_neg = Inr (Some [Some 2])"
    by (simp add: ex_neg_def batch_shape_def broadcast_static_shape_def)
  have b: "parameter_control_dependencies ex_neg True = Inr []"
    using t bsn by blast
  have pre: "wf (current (scale ex_neg))
     \<and> broadcast_shape (shape ex_x) (shape (current (loc ex_neg))) = Some [2]
     \<and> broadcast_shape [2] (shape (current (scale ex_neg))) = Some [2]"
    by (simp add: ex_neg_def ex_neg_scale_def ex_loc_def ex_x_def wf_def)
  have np: "\<not> fpos (get (current (scale ex_neg)) [0])"
    by (simp add: ex_neg_def ex_neg_scale_def get_def)
  from t pre obtain r where r: "log_prob ex_neg ex_x = Inr r" "shape r = [2]"
    and n: "\<forall>idx \<in> set (indices [2]).
              \<not> fpos (get (current (scale ex_neg)) (proj (shape (current (scale ex_neg))) idx))
              \<longrightarrow> get r idx = NaN"
    by blast
  have g: "get r [0] = NaN"
    using n np by (simp add: upt_0_2 ex_neg_def ex_neg_scale_def proj_def)
  have nb: "\<not> validate_args ex_bad" by (simp add: ex_bad_def)
  note u = validate_args_off [OF nb]
  have bsb: "batch_shape ex_bad = Inl (ValueError ''Incompatible shapes for broadcasting: (2,) and (3,)'')"
    by (simp add: ex_bad_def batch_shape_def broadcast_static_shape_def str_shape_def str_dim_def)
  have c: "parameter_control_dependencies ex_bad True =
       Inl (ValueError ''Arguments `loc` and `scale` must have compatible shapes; loc.shape=(2,), scale.shape=(3,).'')"
    and d: "parameter_control_dependencies (ex_bad\<lparr>validate_args := True\<rparr>) True =
       parameter_control_dependencies ex_bad True"
    using u bsb by (simp_all add: ex_bad_def str_shape_def str_dim_def)
  show ?thesis using nv a bsn b np r g nb bsb c d by auto
qed

text \<open>
  C6. With \<open>validate_args\<close> on, the positivity assertion on \<open>scale\<close> is produced at
  construction exactly when \<open>scale\<close> is not a reference, and on a later access exactly when
  it is one: never both. (At construction the assertion is reached when the static shape
  check passes.)
\<close>

theorem scale_check_timing:
  assumes "validate_args D"
  shows "(\<forall>bs. batch_shape D = Inr bs \<longrightarrow>
            parameter_control_dependencies D True =
              Inr (if is_ref (scale D) then []
                   else [AssertPositive (current (scale D)) ''Argument `scale` must be positive.'']))
         \<and> parameter_control_dependencies D False =
              Inr (if is_ref (scale D)
                   then [AssertPositive (current (scale D)) ''Argument `scale` must be positive.'']
                   else [])"
  using assms by (auto simp: parameter_control_dependencies_def assert_positive_def)

theorem scale_check_timing_witness:
  "validate_args ex_dist \<and> batch_shape ex_dist = Inr (Some [Some 2])
   \<and> parameter_control_dependencies ex_dist True =
        Inr [AssertPositive ex_scale ''Argument `scale` must be positive.'']
   \<and> parameter_control_dependencies ex_dist False = Inr []
   \<and> validate_args ex_ref \<and> batch_shape ex_ref = Inr (Some [Some 2])
   \<and> parameter_control_dependencies ex_ref True = Inr []
   \<and> parameter_control_dependencies ex_ref False =
        Inr [AssertPositive ex_scale ''Argument `scale` must be positive.'']"
  using scale_check_timing [of ex_dist] scale_check_timing [of ex_ref]
  by (simp add: ex_dist_def ex_ref_def batch_shape_def broadcast_static_shape_def)



text \<open>
  C10. \<open>mean\<close> depends on \<open>scale\<close> only through its shape, and \<open>stddev\<close> depends on
  \<open>loc\<close> only through its shape, whatever the values are.
\<close>

theorem mean_stddev_independence:
  "(current (loc D1) = current (loc D2)
      \<and> shape (current (scale D1)) = shape (current (scale D2)) \<longrightarrow> mean D1 = mean D2)
   \<and> (current (scale D1) = current (scale D2)
      \<and> shape (current (loc D1)) = shape (current (loc D2)) \<longrightarrow> stddev D1 = stddev D2)"
  by (simp add: mean_def stddev_def ones_like_def)

theorem mean_stddev_independence_witness:
  "current (loc ex_dist) = current (loc (ex_dist\<lparr>scale := (scale ex_dist)\<lparr>current := ex_junk\<rparr>\<rparr>))
   \<and> shape (current (scale ex_dist)) = shape ex_junk
   \<and> current (scale ex_dist) \<noteq> ex_junk
   \<and> mean ex_dist = mean (ex_dist\<lparr>scale := (scale ex_dist)\<lparr>current := ex_junk\<rparr>\<rparr>)
   \<and> current (scale ex_dist) = current (scale (ex_dist\<lparr>loc := (loc ex_dist)\<lparr>current := ex_junk\<rparr>\<rparr>))
   \<and> shape (current (loc ex_dist)) = shape ex_junk
   \<and> current (loc ex_dist) \<noteq> ex_junk
   \<and> stddev ex_dist = stddev (ex_dist\<lparr>loc := (loc ex_dist)\<lparr>current := ex_junk\<rparr>\<rparr>)"
  using mean_stddev_independence [of ex_dist "ex_dist\<lparr>scale := (scale ex_dist)\<lparr>current := ex_junk\<rparr>\<rparr>"]
    mean_stddev_independence [of ex_dist "ex_dist\<lparr>loc := (loc ex_dist)\<lparr>current := ex_junk\<rparr>\<rparr>"]
  by (simp add: ex_dist_def ex_junk_def ex_loc_def ex_scale_def)

text \<open>
  C2. For every sample count \<open>n\<close> and every seed, \<open>sample_n\<close> returns a tensor of shape
  \<open>[n] + batch_shape\<close> whose element at every position is
  \<open>loc + scale * s * sqrt (g1^2 + g2^2 + g3^2)\<close>, where \<open>g1\<close>, \<open>g2\<close>, \<open>g3\<close> are the three normal
  draws at that position (the last axis of the normal tensor, drawn with the first
  sub-seed) and \<open>s\<close> is the +1/-1 draw at that position (drawn with the second sub-seed).
\<close>

theorem sample_n_elementwise:
  assumes bs: "broadcast_shape (shape (current (loc D))) (shape (current (scale D))) = Some bs"
  shows "\<exists>r. sample_n R D n seed = Inr r \<and> shape r = n # bs \<and> wf r \<and>
    (\<forall>idx \<in> set (indices (n # bs)).
       get r idx =
         sample_formula
           (get (current (loc D)) (proj (shape (current (loc D))) idx))
           (get (current (scale D)) (proj (shape (current (scale D))) idx))
           (if sign_draw R (subseed R seed 2) (n # bs) idx then Fin 1 else Fin (- 1))
           (Fin (normal_draw R (subseed R seed 1) (n # bs @ [3]) (idx @ [0])))
           (Fin (normal_draw R (subseed R seed 1) (n # bs @ [3]) (idx @ [1])))
           (Fin (normal_draw R (subseed R seed 1) (n # bs @ [3]) (idx @ [2]))))"
proof (intro exI conjI ballI)
  let ?r = "build (n # bs) (\<lambda>idx.
      fadd (fmul (fmul (if sign_draw R (subseed R seed 2) (n # bs) idx then Fin 1 else Fin (- 1))
                   (fsqrt (fadd (fadd
                      (fsquare (Fin (normal_draw R (subseed R seed 1) (n # bs @ [3]) (idx @ [0]))))
                      (fsquare (Fin (normal_draw R (subseed R seed 1) (n # bs @ [3]) (idx @ [1])))))
                      (fsquare (Fin (normal_draw R (subseed R seed 1) (n # bs @ [3]) (idx @ [2])))))))
                 (get (current (scale D)) (proj (shape (current (scale D))) idx)))
           (get (current (loc D)) (proj (shape (current (loc D))) idx)))"
  show "sample_n R D n seed = Inr ?r" by (rule sample_n_build [OF bs])
  show "shape ?r = n # bs" by (rule shape_build)
  show "wf ?r" by (rule wf_build)
  fix idx assume idx: "idx \<in> set (indices (n # bs))"
  show "get ?r idx =
         sample_formula
           (get (current (loc D)) (proj (shape (current (loc D))) idx))
           (get (current (scale D)) (proj (shape (current (scale D))) idx))
           (if sign_draw R (subseed R seed 2) (n # bs) idx then Fin 1 else Fin (- 1))
           (Fin (normal_draw R (subseed R seed 1) (n # bs @ [3]) (idx @ [0])))
           (Fin (normal_draw R (subseed R seed 1) (n # bs @ [3]) (idx @ [1])))
           (Fin (normal_draw R (subseed R seed 1) (n # bs @ [3]) (idx @ [2])))"
    unfolding get_build [OF idx] sample_formula_def
    by (simp only: fadd_commute [of "fmul _ _"] fmul_assoc fmul_commute [of _ "get _ _"])
qed

theorem sample_n_elementwise_witness:
  "broadcast_shape (shape (current (loc ex_dist))) (shape (current (scale ex_dist))) = Some [2]
   \<and> sample_n ex_rng ex_dist 1 (Some 1) =
       Inr \<lparr>shape = [1, 2], elems = [Fin (1 - 11 * sqrt 3), Fin (2 - 22 * sqrt 3)]\<rparr>"
proof -
  have b: "broadcast_shape (shape (current (loc ex_dist))) (shape (current (scale ex_dist))) = Some [2]"
    by (simp add: ex_dist_def ex_loc_def ex_scale_def)
  from sample_n_elementwise [OF b, of ex_rng 1 "Some 1"]
  obtain r where r: "sample_n ex_rng ex_dist 1 (Some 1) = Inr r" "shape r = [1, 2]" "wf r"
    and g: "\<forall>idx \<in> set (indices [1, 2]).
       get r idx =
         sample_formula
           (get (current (loc ex_dist)) (proj (shape (current (loc ex_dist))) idx))
           (get (current (scale ex_dist)) (proj (shape (current (scale ex_dist))) idx))
           (if sign_draw ex_rng (subseed ex_rng (Some 1) 2) [1, 2] idx then Fin 1 else Fin (- 1))
           (Fin (normal_draw ex_rng (subseed ex_rng (Some 1) 1) [1, 2, 3] (idx @ [0])))
           (Fin (normal_draw ex_rng (subseed ex_rng (Some 1) 1) [1, 2, 3] (idx @ [1])))
           (Fin (normal_draw ex_rng (subseed ex_rng (Some 1) 1) [1, 2, 3] (idx @ [2])))"
    by auto
  have e0: "elems r ! 0 = Fin (1 - 11 * sqrt 3)"
    using g r(2) by (simp add: upt_0_2 get_def ex_dist_def ex_loc_def ex_scale_def proj_def
        sample_formula_def ex_rng_def subseed_def fsquare_def)
  have e1: "elems r ! 1 = Fin (2 - 22 * sqrt 3)"
    using g r(2) by (simp add: upt_0_2 get_def ex_dist_def ex_loc_def ex_scale_def proj_def
        sample_formula_def ex_rng_def subseed_def fsquare_def)
  have "length (elems r) = 2" using r(2,3) by (simp add: wf_def)
  then have "elems r = [elems r ! 0, elems r ! 1]"
    by (cases "elems r"; cases "tl (elems r)") auto
  then have "r = \<lparr>shape = [1, 2], elems = [Fin (1 - 11 * sqrt 3), Fin (2 - 22 * sqrt 3)]\<rparr>"
    using r(2) e0 e1 by (cases r) simp
  then show ?thesis using b r(1) by simp
qed

text \<open>
  C3. The stream opened on the seed with the salt \<open>DoublesidedMaxwell\<close> yields sub-seed 1
  and then sub-seed 2, each a function of seed, counter and salt. \<open>sample_n\<close> takes the
  normal draws with sub-seed 1 and the sign draw with sub-seed 2; with the order of the
  two requests swapped the signs come with sub-seed 1 and the normal draws with
  sub-seed 2. The two outputs differ exactly when the values so drawn differ at some
  position of the sample, and they do differ for the random source \<open>ex_rng\<close>.
\<close>

theorem sample_n_subseed_order:
  "fst (seed_call R (SeedStream seed ''DoublesidedMaxwell'')) = subseed R seed 1
   \<and> fst (seed_call R (snd (seed_call R (SeedStream seed ''DoublesidedMaxwell'')))) = subseed R seed 2
   \<and> (broadcast_shape (shape (current (loc D))) (shape (current (scale D))) = Some bs \<longrightarrow>
        sample_n R D n seed = Inr (build (n # bs) (sample_value R D seed 1 2 (n # bs)))
        \<and> sample_n_swapped R D n seed = Inr (build (n # bs) (sample_value R D seed 2 1 (n # bs)))
        \<and> (sample_n R D n seed \<noteq> sample_n_swapped R D n seed \<longleftrightarrow>
             (\<exists>idx \<in> set (indices (n # bs)).
                sample_value R D seed 1 2 (n # bs) idx \<noteq> sample_value R D seed 2 1 (n # bs) idx)))
   \<and> sample_n ex_rng ex_dist 1 (Some 1) \<noteq> sample_n_swapped ex_rng ex_dist 1 (Some 1)"
proof (intro conjI impI)
  show "fst (seed_call R (SeedStream seed ''DoublesidedMaxwell'')) = subseed R seed 1"
    by (simp add: seed_call_first)
  show "fst (seed_call R (snd (seed_call R (SeedStream seed ''DoublesidedMaxwell''))))
        = subseed R seed 2"
    unfolding seed_call_first snd_conv seed_call_second fst_conv ..
  show "sample_n ex_rng ex_dist 1 (Some 1) \<noteq> sample_n_swapped ex_rng ex_dist 1 (Some 1)"
    by (rule ex_swap_differs)
next
  assume bs: "broadcast_shape (shape (current (loc D))) (shape (current (scale D))) = Some bs"
  show "sample_n R D n seed = Inr (build (n # bs) (sample_value R D seed 1 2 (n # bs)))"
    by (rule sample_n_value [OF bs])
  show "sample_n_swapped R D n seed = Inr (build (n # bs) (sample_value R D seed 2 1 (n # bs)))"
    by (rule sample_n_swapped_value [OF bs])
  show "sample_n R D n seed \<noteq> sample_n_swapped R D n seed \<longleftrightarrow>
        (\<exists>idx \<in> set (indices (n # bs)).
           sample_value R D seed 1 2 (n # bs) idx \<noteq> sample_value R D seed 2 1 (n # bs) idx)"
    by (rule sample_swap_iff [OF bs])
qed

theorem sample_n_subseed_order_witness:
  "broadcast_shape (shape (current (loc ex_dist))) (shape (current (scale ex_dist))) = Some [2]
   \<and> subseed ex_rng (Some 0) 1 = Some 1 \<and> subseed ex_rng (Some 0) 2 = Some 2
   \<and> sample_n ex_rng ex_dist 1 (Some 0) =
       Inr \<lparr>shape = [1, 2], elems = [Fin 1, Fin 2]\<rparr>
   \<and> sample_n_swapped ex_rng ex_dist 1 (Some 0) =
       Inr \<lparr>shape = [1, 2], elems = [Fin (1 - 11 * sqrt 3), Fin (2 - 22 * sqrt 3)]\<rparr>
   \<and> sample_n ex_rng ex_dist 1 (Some 0) \<noteq> sample_n_swapped ex_rng ex_dist 1 (Some 0)"
proof -
  note b = ex_batch_shape
  note t = sample_n_subseed_order [of ex_rng "Some 0" ex_dist "[2]" 1]
  have s: "subseed ex_rng (Some 0) 1 = Some 1" "subseed ex_rng (Some 0) 2 = Some 2"
    by (simp_all add: subseed_def ex_rng_def)
  have v12: "sample_value ex_rng ex_dist (Some 0) 1 2 [1, 2] [0, 0] = Fin 1"
    "sample_value ex_rng ex_dist (Some 0) 1 2 [1, 2] [0, 1] = Fin 2"
    unfolding sample_value_def s
    by (simp_all add: sample_formula_def ex_rng_def ex_dist_def ex_loc_def
        ex_scale_def proj_def get_def fsquare_def)
  have v21: "sample_value ex_rng ex_dist (Some 0) 2 1 [1, 2] [0, 0] = Fin (1 - 11 * sqrt 3)"
    "sample_value ex_rng ex_dist (Some 0) 2 1 [1, 2] [0, 1] = Fin (2 - 22 * sqrt 3)"
    unfolding sample_value_def s
    by (simp_all add: sample_formula_def ex_rng_def ex_dist_def ex_loc_def
        ex_scale_def proj_def get_def fsquare_def)
  have x: "sample_n ex_rng ex_dist 1 (Some 0) =
       Inr \<lparr>shape = [1, 2], elems = [Fin 1, Fin 2]\<rparr>"
  proof -
    have "sample_n ex_rng ex_dist 1 (Some 0) =
        Inr (build [1, 2] (sample_value ex_rng ex_dist (Some 0) 1 2 [1, 2]))"
      using t b by blast
    then show ?thesis unfolding build_def indices_1_2 list.map v12 .
  qed
  have y: "sample_n_swapped ex_rng ex_dist 1 (Some 0) =
       Inr \<lparr>shape = [1, 2], elems = [Fin (1 - 11 * sqrt 3), Fin (2 - 22 * sqrt 3)]\<rparr>"
  proof -
    have "sample_n_swapped ex_rng ex_dist 1 (Some 0) =
        Inr (build [1, 2] (sample_value ex_rng ex_dist (Some 0) 2 1 [1, 2]))"
      using t b by blast
    then show ?thesis unfolding build_def indices_1_2 list.map v21 .
  qed
  have "0 < sqrt 3" by simp
  then have "1 - 11 * sqrt 3 < 1" by linarith
  then have ne: "Fin 1 \<noteq> Fin (1 - 11 * sqrt 3)" by simp
  have m: "[0, 0] \<in> set (indices [1, 2])" unfolding indices_1_2 by simp
  have "sample_value ex_rng ex_dist (Some 0) 1 2 [1, 2] [0, 0]
           \<noteq> sample_value ex_rng ex_dist (Some 0) 2 1 [1, 2] [0, 0]"
    unfolding v12 v21 by (rule ne)
  then have "\<exists>idx \<in> set (indices [1, 2]).
           sample_value ex_rng ex_dist (Some 0) 1 2 [1, 2] idx
           \<noteq> sample_value ex_rng ex_dist (Some 0) 2 1 [1, 2] idx"
    using m by blast
  then have z: "sample_n ex_rng ex_dist 1 (Some 0) \<noteq> sample_n_swapped ex_rng ex_dist 1 (Some 0)"
    using t b by blast
  show ?thesis using b s x y z by blast
qed

end
